theory Spec2Isabelle
  imports Main
begin

section \<open>The data model of helper.go\<close>

text \<open>
  A Go \<^verbatim>\<open>error\<close> is either nil or a value carrying a message: \<open>None\<close> is nil.
\<close>

type_synonym error = "string option"

text \<open>
  \<^verbatim>\<open>type State int\<close> with the six constants numbered by \<^verbatim>\<open>iota\<close>; the source
  compares states with \<^verbatim>\<open>>=\<close> and \<^verbatim>\<open><\<close> on these numbers.
\<close>

type_synonym State = int

definition StateUnactivated :: State where "StateUnactivated = 0"
definition StateActivating :: State where "StateActivating = 1"
definition StateActivated :: State where "StateActivated = 2"
definition StateShuttingDown :: State where "StateShuttingDown = 3"
definition StateLocalShutdown :: State where "StateLocalShutdown = 4"
definition StateShutDown :: State where "StateShutDown = 5"

type_synonym OnceActivateCallback = "unit \<Rightarrow> error"
type_synonym OnceShutdownHandler = "error \<Rightarrow> error"

text \<open>
  The managed object is an \<^verbatim>\<open>interface{}\<close> that may or may not implement
  \<^verbatim>\<open>HandleOnceActivator\<close> and \<^verbatim>\<open>HandleOnceShutdowner\<close>; \<open>None\<close> is a method the
  object does not have, so that the type assertion \<^verbatim>\<open>h.obj.(HandleOnceActivator)\<close> panics.
\<close>

record ManagedObj =
  HandleOnceActivate :: "OnceActivateCallback option"
  HandleOnceShutdown :: "OnceShutdownHandler option"

datatype Logger = NilLogger | UserLogger nat

text \<open>
  A \<^verbatim>\<open>chan struct{}\<close> that is only ever closed and received from: a receive blocks
  while it is open, and closing a closed channel is a run-time panic of Go.
\<close>

datatype chan = Open | Closed

text \<open>
  How a piece of code can stop instead of returning: a run-time panic of Go (failed type
  assertion, close of a closed channel, negative WaitGroup counter), the logger's
  \<^verbatim>\<open>Panic\<close>, or a receive or \<^verbatim>\<open>Wait\<close> that cannot proceed yet.
\<close>

datatype stop = GoPanic string | LoggerPanic string | Blocked

text \<open>
  The struct \<^verbatim>\<open>Helper\<close>, field by field. \<^verbatim>\<open>Lock\<close> is not a field of the model: every
  function below that the source runs between \<^verbatim>\<open>Lock()\<close> and \<^verbatim>\<open>Unlock()\<close> is one atomic
  step. \<^verbatim>\<open>wg\<close> is the counter of the \<^verbatim>\<open>sync.WaitGroup\<close>, a signed 32-bit number (see
  \<open>WaitGroup_Add\<close> below). \<^verbatim>\<open>shutdownDeferCount\<close> is a Go \<^verbatim>\<open>int\<close> that moves by one
  per call; it is an unbounded integer here, that is, fewer than \<open>2^63\<close> deferrals are
  outstanding at any time.
\<close>

record Helper =
  lg :: "Logger option"
  obj :: ManagedObj
  state :: State
  shutdownHandler :: "OnceShutdownHandler option"
  shutdownDeferCount :: int
  isActivated :: bool
  isScheduledShutdown :: bool
  shutdownErr :: error
  activatingDoneChan :: chan
  shutdownStartedChan :: chan
  localShutdownDoneChan :: chan
  shutdownDoneChan :: chan
  wg :: int

definition close_chan :: "chan \<Rightarrow> stop + chan" where
  "close_chan c = (case c of Open \<Rightarrow> Inr Closed | Closed \<Rightarrow> Inl (GoPanic ''close of closed channel''))"

text \<open>
  Modelled from the spec: the logger package is not part of the sources. Section 6 of the
  specification describes its \<^verbatim>\<open>Panic\<close> as a fatal-error reporter that terminates the
  process or equivalent, so a call never returns to the caller. \<^verbatim>\<open>h.lg\<close> is an interface
  value; when it is nil (only \<^verbatim>\<open>SetLg(nil)\<close> makes it so) the method call itself is a
  run-time panic of Go.
\<close>

definition lg_Panic :: "Logger option \<Rightarrow> string \<Rightarrow> stop" where
  "lg_Panic l msg =
     (case l of
        None \<Rightarrow> GoPanic ''invalid memory address or nil pointer dereference''
      | Some logger \<Rightarrow> LoggerPanic msg)"

section \<open>Construction and setters\<close>

definition NewHelperWithShutdownHandler ::
  "ManagedObj \<Rightarrow> Logger option \<Rightarrow> OnceShutdownHandler option \<Rightarrow> stop + Helper" where
  "NewHelperWithShutdownHandler ob logger shutdownHandler' =
     (if shutdownHandler' = None \<and> HandleOnceShutdown ob = None
      then Inl (GoPanic ''interface conversion: missing method HandleOnceShutdown'')
      else Inr \<lparr> lg = (case logger of None \<Rightarrow> Some NilLogger | Some l \<Rightarrow> Some l),
                 obj = ob,
                 state = StateUnactivated,
                 shutdownHandler = shutdownHandler',
                 shutdownDeferCount = 0,
                 isActivated = False,
                 isScheduledShutdown = False,
                 shutdownErr = None,
                 activatingDoneChan = Open,
                 shutdownStartedChan = Open,
                 localShutdownDoneChan = Open,
                 shutdownDoneChan = Open,
                 wg = 0 \<rparr>)"

text \<open>
  \<^verbatim>\<open>NewHelper\<close> takes \<^verbatim>\<open>obj HandleOnceShutdowner\<close>: the Go type of the parameter makes
  the caller pass an object with that method.
\<close>

definition NewHelper :: "Logger option \<Rightarrow> ManagedObj \<Rightarrow> stop + Helper" where
  "NewHelper logger ob = NewHelperWithShutdownHandler ob logger None"

definition SetLg :: "Logger option \<Rightarrow> Helper \<Rightarrow> Helper" where
  "SetLg l h = h\<lparr>lg := l\<rparr>"

definition SetOnceShutdownHandler :: "OnceShutdownHandler option \<Rightarrow> Helper \<Rightarrow> error \<times> Helper" where
  "SetOnceShutdownHandler callback h =
     (if state h \<ge> StateActivated
      then (Some ''Cannot SetOnceShutdownHandler after activation'', h)
      else (None, h\<lparr>shutdownHandler := callback\<rparr>))"

definition GetAsyncObjState :: "Helper \<Rightarrow> State" where
  "GetAsyncObjState h = state h"

definition IsActivated :: "Helper \<Rightarrow> bool" where
  "IsActivated h = isActivated h"

definition IsScheduledShutdown :: "Helper \<Rightarrow> bool" where
  "IsScheduledShutdown h = isScheduledShutdown h"

definition IsStartedShutdown :: "Helper \<Rightarrow> bool" where
  "IsStartedShutdown h = (state h \<ge> StateShuttingDown)"

definition IsDoneLocalShutdown :: "Helper \<Rightarrow> bool" where
  "IsDoneLocalShutdown h = (state h \<ge> StateLocalShutdown)"

definition IsDoneShutdown :: "Helper \<Rightarrow> bool" where
  "IsDoneShutdown h = (state h \<ge> StateShutDown)"

section \<open>Deferral, activation flag, scheduling\<close>

definition DeferShutdown :: "Helper \<Rightarrow> error \<times> Helper" where
  "DeferShutdown h =
     (if state h \<ge> StateShuttingDown
      then (Some ''Shutdown already started; cannot defer'', h)
      else (None, h\<lparr>shutdownDeferCount := shutdownDeferCount h + 1\<rparr>))"

definition SetIsActivated :: "Helper \<Rightarrow> stop + error \<times> Helper" where
  "SetIsActivated h =
     (if \<not> isActivated h then
        (if state h \<ge> StateShuttingDown
         then Inr (Some ''Cannot activate; shutdown already initiated'', h)
         else (case close_chan (activatingDoneChan h) of
                 Inl p \<Rightarrow> Inl p
               | Inr c \<Rightarrow> Inr (None, h\<lparr>isActivated := True, state := StateActivated,
                                        activatingDoneChan := c\<rparr>)))
      else Inr (None, h))"

definition lockedEnterShuttingDownState :: "Helper \<Rightarrow> stop + Helper" where
  "lockedEnterShuttingDownState h =
     (let oldState = state h;
          h1 = h\<lparr>state := StateShuttingDown\<rparr>
      in case (if oldState < StateActivated
               then (case close_chan (activatingDoneChan h1) of
                       Inl p \<Rightarrow> Inl p
                     | Inr c \<Rightarrow> Inr (h1\<lparr>activatingDoneChan := c\<rparr>))
               else Inr h1) of
           Inl p \<Rightarrow> Inl p
         | Inr h2 \<Rightarrow> (case close_chan (shutdownStartedChan h2) of
                        Inl p \<Rightarrow> Inl p
                      | Inr c \<Rightarrow> Inr (h2\<lparr>shutdownStartedChan := c\<rparr>)))"

text \<open>
  \<^verbatim>\<open>UndeferShutdown\<close> and \<^verbatim>\<open>StartShutdown\<close> return, beside what the source returns, the
  local \<^verbatim>\<open>doShutdownNow\<close>: when it is set the source calls \<^verbatim>\<open>asyncDoStartedShutdown\<close>
  right after unlocking, which starts the goroutine of the shutdown driver.
\<close>

definition UndeferShutdown :: "Helper \<Rightarrow> stop + bool \<times> Helper" where
  "UndeferShutdown h =
     (if shutdownDeferCount h < 1
      then Inl (lg_Panic (lg h) ''UndeferShutdown before DeferShutdown'')
      else (let h1 = h\<lparr>shutdownDeferCount := shutdownDeferCount h - 1\<rparr>;
                doShutdownNow = (shutdownDeferCount h1 = 0 \<and> isScheduledShutdown h1
                                 \<and> state h1 < StateShuttingDown)
            in if doShutdownNow
               then (case lockedEnterShuttingDownState h1 of
                       Inl p \<Rightarrow> Inl p
                     | Inr h2 \<Rightarrow> Inr (True, h2))
               else Inr (False, h1)))"

definition StartShutdown :: "error \<Rightarrow> Helper \<Rightarrow> stop + (bool \<times> bool) \<times> Helper" where
  "StartShutdown completionErr h =
     (let isFirst = (\<not> isScheduledShutdown h)
      in if isFirst then
           (if state h \<ge> StateShuttingDown
            then Inl (lg_Panic (lg h) ''shutdown started before scheduled'')
            else (let h1 = h\<lparr>shutdownErr := completionErr, isScheduledShutdown := True\<rparr>;
                      doShutdownNow = (shutdownDeferCount h1 = 0)
                  in if doShutdownNow
                     then (case lockedEnterShuttingDownState h1 of
                             Inl p \<Rightarrow> Inl p
                           | Inr h2 \<Rightarrow> Inr ((isFirst, True), h2))
                     else Inr ((isFirst, False), h1)))
         else Inr ((isFirst, False), h))"

section \<open>The termination wait-group and the registration of children\<close>

text \<open>
  \<^verbatim>\<open>sync.WaitGroup\<close> of Go's standard library keeps its counter in the high 32 bits of
  a 64-bit word: \<^verbatim>\<open>Add(delta)\<close> adds \<^verbatim>\<open>uint64(delta) << 32\<close> to the word, reads the
  counter back as an \<^verbatim>\<open>int32\<close>, and panics if it is negative. So only the low 32 bits of
  \<open>delta\<close> count, and a counter that passes \<open>2^31 - 1\<close> is a panic. \<^verbatim>\<open>Done()\<close> is
  \<^verbatim>\<open>Add(-1)\<close>, and \<^verbatim>\<open>Wait()\<close> returns when the counter is zero. The checks of the
  standard library against an \<^verbatim>\<open>Add\<close> that races with the return of a \<^verbatim>\<open>Wait\<close> are not
  part of the model.
\<close>

definition int32 :: "int \<Rightarrow> int" where
  "int32 x = (x + 2147483648) mod 4294967296 - 2147483648"

definition WaitGroup_Add :: "int \<Rightarrow> Helper \<Rightarrow> stop + Helper" where
  "WaitGroup_Add delta h =
     (let v = int32 (wg h + delta)
      in if v < 0 then Inl (GoPanic ''sync: negative WaitGroup counter'')
         else Inr (h\<lparr>wg := v\<rparr>))"

definition ShutdownWGAdd :: "int \<Rightarrow> Helper \<Rightarrow> stop + error \<times> Helper" where
  "ShutdownWGAdd delta h =
     (if delta \<le> 0 then Inr (Some ''ShutdownWGAdd: delta must be > 0'', h)
      else if state h \<ge> StateShutDown
      then Inr (Some ''Cannot add to ShutdownWG after StateShutdown'', h)
      else (case WaitGroup_Add delta h of
              Inl p \<Rightarrow> Inl p
            | Inr h' \<Rightarrow> Inr (None, h')))"

text \<open>
  \<^verbatim>\<open>wg.Done()\<close>, called by whoever got the wait-group from \<^verbatim>\<open>ShutdownWGAdd\<close> and by the
  goroutine of each registered child when the child is finished.
\<close>

definition wg_Done :: "Helper \<Rightarrow> stop + Helper" where
  "wg_Done h = WaitGroup_Add (- 1) h"

text \<open>
  The three registration methods run the same locked section; the goroutine each of them
  starts only waits on channels, calls the child, and ends with \<^verbatim>\<open>h.wg.Done()\<close>.
  The error messages of the last two also print the child, which is left out here.
\<close>

definition AddShutdownChildChan :: "Helper \<Rightarrow> stop + error \<times> Helper" where
  "AddShutdownChildChan h =
     (if state h \<ge> StateShutDown
      then Inr (Some ''Cannot add shutdown child chan; StateShutdown already entered'', h)
      else (case WaitGroup_Add 1 h of
              Inl p \<Rightarrow> Inl p
            | Inr h' \<Rightarrow> Inr (None, h')))"

definition AddAsyncShutdownChild :: "Helper \<Rightarrow> stop + error \<times> Helper" where
  "AddAsyncShutdownChild h =
     (if state h \<ge> StateShutDown
      then Inr (Some ''Cannot add async shutdown child; StateShutdown already entered'', h)
      else (case WaitGroup_Add 1 h of
              Inl p \<Rightarrow> Inl p
            | Inr h' \<Rightarrow> Inr (None, h')))"

definition AddSyncCloseChild :: "Helper \<Rightarrow> stop + error \<times> Helper" where
  "AddSyncCloseChild h =
     (if state h \<ge> StateShutDown
      then Inr (Some ''Cannot add shutdown child chan; StateShutdown already entered'', h)
      else (case WaitGroup_Add 1 h of
              Inl p \<Rightarrow> Inl p
            | Inr h' \<Rightarrow> Inr (None, h')))"

section \<open>Waiting\<close>

text \<open>
  The source receives from the channel and then reads \<^verbatim>\<open>h.shutdownErr\<close> without the
  lock. Both are one step here: the step cannot be taken while the channel is open, and
  from local-shutdown on the terminal error does not change any more (lemma
  \<open>terminal_error_final\<close> below).
\<close>

definition WaitLocalShutdown :: "Helper \<Rightarrow> stop + error" where
  "WaitLocalShutdown h =
     (case localShutdownDoneChan h of Open \<Rightarrow> Inl Blocked | Closed \<Rightarrow> Inr (shutdownErr h))"

definition WaitShutdown :: "Helper \<Rightarrow> stop + error" where
  "WaitShutdown h =
     (case shutdownDoneChan h of Open \<Rightarrow> Inl Blocked | Closed \<Rightarrow> Inr (shutdownErr h))"

section \<open>DoOnceActivate\<close>

text \<open>
  \<^verbatim>\<open>DoOnceActivate\<close> releases the lock several times, waits on channels and calls the
  hook without the lock, so other goroutines run in between. It is a sequence of atomic
  steps; \<open>act_pc\<close> says where a call is:
  \<^item> \<open>ActEntry\<close>: before the first \<^verbatim>\<open>h.Lock.Lock()\<close>;
  \<^item> \<open>ActWaitActivatingDone\<close>: in \<^verbatim>\<open><-h.activatingDoneChan\<close>;
  \<^item> \<open>ActWaitShutdownEarly\<close>: in \<^verbatim>\<open>err = h.WaitShutdown()\<close> of the branch
    \<^verbatim>\<open>h.state >= StateShuttingDown\<close>;
  \<^item> \<open>ActHook\<close>: about to call the activation hook;
  \<^item> \<open>ActSetIsActivated err\<close>: the hook returned \<open>err\<close>;
  \<^item> \<open>ActStartShutdown err\<close>: at \<^verbatim>\<open>if err != nil { h.StartShutdown(err) }\<close>;
  \<^item> \<open>ActUndeferShutdown err\<close>: at \<^verbatim>\<open>h.UndeferShutdown()\<close>;
  \<^item> \<open>ActWaitShutdownLate err\<close>: in the final \<^verbatim>\<open>h.WaitShutdown()\<close>;
  \<^item> \<open>ActReturned err\<close>: the call has returned \<open>err\<close>.
\<close>

datatype act_pc =
    ActEntry
  | ActWaitActivatingDone
  | ActWaitShutdownEarly
  | ActHook
  | ActSetIsActivated error
  | ActStartShutdown error
  | ActUndeferShutdown error
  | ActWaitShutdownLate error
  | ActReturned error

text \<open>
  The locked section from the second \<^verbatim>\<open>if h.isActivated\<close> to the \<^verbatim>\<open>Unlock\<close> before the
  hook. It is reached either directly, or after the wait on \<^verbatim>\<open>activatingDoneChan\<close>.
\<close>

definition DoOnceActivate_locked :: "bool \<Rightarrow> Helper \<Rightarrow> act_pc \<times> Helper" where
  "DoOnceActivate_locked waitOnFail h =
     (if isActivated h then (ActReturned None, h)
      else if state h \<ge> StateShuttingDown
      then (if waitOnFail then (ActWaitShutdownEarly, h)
            else (ActReturned (Some ''Shutdown of object already started; cannot SetIsActivated''), h))
      else (ActHook, h\<lparr>shutdownDeferCount := shutdownDeferCount h + 1,
                       state := StateActivating\<rparr>))"

text \<open>
  One atomic step of a call \<^verbatim>\<open>DoOnceActivate(onceActivateCallback, waitOnFail)\<close>. The
  result is the next position, whether the step starts the shutdown driver, and the helper.
\<close>

fun DoOnceActivate_step ::
  "OnceActivateCallback option \<Rightarrow> bool \<Rightarrow> act_pc \<Rightarrow> Helper \<Rightarrow> stop + act_pc \<times> bool \<times> Helper" where
  "DoOnceActivate_step cb waitOnFail ActEntry h =
     (if isActivated h then Inr (ActReturned None, False, h)
      else if state h = StateActivating then Inr (ActWaitActivatingDone, False, h)
      else (case DoOnceActivate_locked waitOnFail h of (pc, h') \<Rightarrow> Inr (pc, False, h')))"
| "DoOnceActivate_step cb waitOnFail ActWaitActivatingDone h =
     (case activatingDoneChan h of
        Open \<Rightarrow> Inl Blocked
      | Closed \<Rightarrow> (case DoOnceActivate_locked waitOnFail h of (pc, h') \<Rightarrow> Inr (pc, False, h')))"
| "DoOnceActivate_step cb waitOnFail ActWaitShutdownEarly h =
     (case WaitShutdown h of
        Inl p \<Rightarrow> Inl p
      | Inr err \<Rightarrow>
          Inr (ActReturned (if err = None
                            then Some ''Shutdown of object already started; cannot SetIsActivated''
                            else err), False, h))"
| "DoOnceActivate_step cb waitOnFail ActHook h =
     (case cb of
        Some f \<Rightarrow> Inr (ActSetIsActivated (f ()), False, h)
      | None \<Rightarrow> (case HandleOnceActivate (obj h) of
                   None \<Rightarrow> Inl (GoPanic ''interface conversion: missing method HandleOnceActivate'')
                 | Some f \<Rightarrow> Inr (ActSetIsActivated (f ()), False, h)))"
| "DoOnceActivate_step cb waitOnFail (ActSetIsActivated err) h =
     (if err = None
      then (case SetIsActivated h of
              Inl p \<Rightarrow> Inl p
            | Inr (err', h') \<Rightarrow> Inr (ActStartShutdown err', False, h'))
      else Inr (ActStartShutdown err, False, h))"
| "DoOnceActivate_step cb waitOnFail (ActStartShutdown err) h =
     (if err \<noteq> None
      then (case StartShutdown err h of
              Inl p \<Rightarrow> Inl p
            | Inr ((isFirst, doShutdownNow), h') \<Rightarrow> Inr (ActUndeferShutdown err, doShutdownNow, h'))
      else Inr (ActUndeferShutdown err, False, h))"
| "DoOnceActivate_step cb waitOnFail (ActUndeferShutdown err) h =
     (case UndeferShutdown h of
        Inl p \<Rightarrow> Inl p
      | Inr (doShutdownNow, h') \<Rightarrow>
          Inr (if err \<noteq> None \<and> waitOnFail then ActWaitShutdownLate err else ActReturned err,
               doShutdownNow, h'))"
| "DoOnceActivate_step cb waitOnFail (ActWaitShutdownLate err) h =
     (case WaitShutdown h of
        Inl p \<Rightarrow> Inl p
      | Inr e \<Rightarrow> Inr (ActReturned err, False, h))"
| "DoOnceActivate_step cb waitOnFail (ActReturned err) h = Inl Blocked"

section \<open>The shutdown driver\<close>

text \<open>
  The goroutine started by \<^verbatim>\<open>asyncDoStartedShutdown\<close>, as four atomic steps:
  \<^item> \<open>DrvHook\<close>: resolve and call the shutdown hook with \<^verbatim>\<open>h.shutdownErr\<close>;
  \<^item> \<open>DrvLock1 e\<close>: the hook returned \<open>e\<close>; the first locked section;
  \<^item> \<open>DrvWait\<close>: in \<^verbatim>\<open>h.wg.Wait()\<close>;
  \<^item> \<open>DrvLock2\<close>: the second locked section;
  \<^item> \<open>DrvDone\<close>: the goroutine has ended.
\<close>

datatype drv_pc = DrvHook | DrvLock1 error | DrvWait | DrvLock2 | DrvDone

fun asyncDoStartedShutdown_step :: "drv_pc \<Rightarrow> Helper \<Rightarrow> stop + drv_pc \<times> Helper" where
  "asyncDoStartedShutdown_step DrvHook h =
     (case shutdownHandler h of
        None \<Rightarrow> (case HandleOnceShutdown (obj h) of
                   None \<Rightarrow> Inl (GoPanic ''interface conversion: missing method HandleOnceShutdown'')
                 | Some f \<Rightarrow> Inr (DrvLock1 (f (shutdownErr h)), h))
      | Some f \<Rightarrow> Inr (DrvLock1 (f (shutdownErr h)), h))"
| "asyncDoStartedShutdown_step (DrvLock1 shutdownErr') h =
     (let h1 = h\<lparr>shutdownErr := shutdownErr', state := StateLocalShutdown\<rparr>
      in case close_chan (localShutdownDoneChan h1) of
           Inl p \<Rightarrow> Inl p
         | Inr c \<Rightarrow> Inr (DrvWait, h1\<lparr>localShutdownDoneChan := c\<rparr>))"
| "asyncDoStartedShutdown_step DrvWait h =
     (if wg h = 0 then Inr (DrvLock2, h) else Inl Blocked)"
| "asyncDoStartedShutdown_step DrvLock2 h =
     (let h1 = h\<lparr>state := StateShutDown\<rparr>
      in case close_chan (shutdownDoneChan h1) of
           Inl p \<Rightarrow> Inl p
         | Inr c \<Rightarrow> Inr (DrvDone, h1\<lparr>shutdownDoneChan := c\<rparr>))"
| "asyncDoStartedShutdown_step DrvDone h = Inl Blocked"

section \<open>The helper with its goroutines\<close>

text \<open>
  The whole system is the helper, the calls of \<^verbatim>\<open>DoOnceActivate\<close> in progress and the
  shutdown-driver goroutines started so far. An event is one atomic step of some goroutine:
  a call of a method that is a single locked section, the start of a call of
  \<^verbatim>\<open>DoOnceActivate\<close>, or the next step of such a call or of a driver. The other public
  methods (\<^verbatim>\<open>Shutdown\<close>, \<^verbatim>\<open>Close\<close>, \<^verbatim>\<open>LocalShutdown\<close>, the \<^verbatim>\<open>UndeferAnd...\<close>
  family, \<^verbatim>\<open>ShutdownOnContext\<close>) are sequences of \<^verbatim>\<open>StartShutdown\<close>,
  \<^verbatim>\<open>UndeferShutdown\<close> and waits, so their effect on the helper is a sequence of these
  events.
\<close>

record ActTask =
  onceActivateCallback :: "OnceActivateCallback option"
  waitOnFail :: bool
  pc :: act_pc

record sys =
  helper :: Helper
  activators :: "ActTask list"
  drivers :: "drv_pc list"

datatype event =
    EvSetLg "Logger option"
  | EvSetOnceShutdownHandler "OnceShutdownHandler option"
  | EvDeferShutdown
  | EvSetIsActivated
  | EvUndeferShutdown
  | EvStartShutdown error
  | EvShutdownWGAdd int
  | EvWGDone
  | EvAddShutdownChildChan
  | EvAddAsyncShutdownChild
  | EvAddSyncCloseChild
  | EvDoOnceActivate "OnceActivateCallback option" bool
  | EvActivatorStep nat
  | EvDriverStep nat

definition spawn_driver :: "bool \<Rightarrow> drv_pc list \<Rightarrow> drv_pc list" where
  "spawn_driver doShutdownNow ds = (if doShutdownNow then ds @ [DrvHook] else ds)"

fun exec :: "event \<Rightarrow> sys \<Rightarrow> stop + sys" where
  "exec (EvSetLg l) s = Inr (s\<lparr>helper := SetLg l (helper s)\<rparr>)"
| "exec (EvSetOnceShutdownHandler callback) s =
     Inr (s\<lparr>helper := snd (SetOnceShutdownHandler callback (helper s))\<rparr>)"
| "exec EvDeferShutdown s = Inr (s\<lparr>helper := snd (DeferShutdown (helper s))\<rparr>)"
| "exec EvSetIsActivated s =
     (case SetIsActivated (helper s) of
        Inl p \<Rightarrow> Inl p
      | Inr (err, h') \<Rightarrow> Inr (s\<lparr>helper := h'\<rparr>))"
| "exec EvUndeferShutdown s =
     (case UndeferShutdown (helper s) of
        Inl p \<Rightarrow> Inl p
      | Inr (doShutdownNow, h') \<Rightarrow>
          Inr (s\<lparr>helper := h', drivers := spawn_driver doShutdownNow (drivers s)\<rparr>))"
| "exec (EvStartShutdown completionErr) s =
     (case StartShutdown completionErr (helper s) of
        Inl p \<Rightarrow> Inl p
      | Inr ((isFirst, doShutdownNow), h') \<Rightarrow>
          Inr (s\<lparr>helper := h', drivers := spawn_driver doShutdownNow (drivers s)\<rparr>))"
| "exec (EvShutdownWGAdd delta) s =
     (case ShutdownWGAdd delta (helper s) of
        Inl p \<Rightarrow> Inl p
      | Inr (err, h') \<Rightarrow> Inr (s\<lparr>helper := h'\<rparr>))"
| "exec EvWGDone s =
     (case wg_Done (helper s) of
        Inl p \<Rightarrow> Inl p
      | Inr h' \<Rightarrow> Inr (s\<lparr>helper := h'\<rparr>))"
| "exec EvAddShutdownChildChan s =
     (case AddShutdownChildChan (helper s) of
        Inl p \<Rightarrow> Inl p
      | Inr (err, h') \<Rightarrow> Inr (s\<lparr>helper := h'\<rparr>))"
| "exec EvAddAsyncShutdownChild s =
     (case AddAsyncShutdownChild (helper s) of
        Inl p \<Rightarrow> Inl p
      | Inr (err, h') \<Rightarrow> Inr (s\<lparr>helper := h'\<rparr>))"
| "exec EvAddSyncCloseChild s =
     (case AddSyncCloseChild (helper s) of
        Inl p \<Rightarrow> Inl p
      | Inr (err, h') \<Rightarrow> Inr (s\<lparr>helper := h'\<rparr>))"
| "exec (EvDoOnceActivate cb w) s =
     Inr (s\<lparr>activators := activators s @
              [\<lparr>onceActivateCallback = cb, waitOnFail = w, pc = ActEntry\<rparr>]\<rparr>)"
| "exec (EvActivatorStep i) s =
     (if i < length (activators s)
      then (let t = activators s ! i
            in case DoOnceActivate_step (onceActivateCallback t) (waitOnFail t) (pc t) (helper s) of
                 Inl p \<Rightarrow> Inl p
               | Inr (pc', doShutdownNow, h') \<Rightarrow>
                   Inr (s\<lparr>helper := h',
                          activators := (activators s)[i := t\<lparr>pc := pc'\<rparr>],
                          drivers := spawn_driver doShutdownNow (drivers s)\<rparr>))
      else Inl Blocked)"
| "exec (EvDriverStep i) s =
     (if i < length (drivers s)
      then (case asyncDoStartedShutdown_step (drivers s ! i) (helper s) of
              Inl p \<Rightarrow> Inl p
            | Inr (d', h') \<Rightarrow> Inr (s\<lparr>helper := h', drivers := (drivers s)[i := d']\<rparr>))
      else Inl Blocked)"

text \<open>A schedule is a list of events, run from left to right until one of them stops.\<close>

fun run :: "event list \<Rightarrow> sys \<Rightarrow> stop + sys" where
  "run [] s = Inr s"
| "run (ev # evs) s = (case exec ev s of Inl p \<Rightarrow> Inl p | Inr s' \<Rightarrow> run evs s')"

definition init_sys :: "Helper \<Rightarrow> sys" where
  "init_sys h = \<lparr>helper = h, activators = [], drivers = []\<rparr>"

section \<open>Invariants\<close>

text \<open>
  What holds of the helper after every event of every schedule from a new helper:
  the state is one of the six, the flags, the deferral count and the four channels agree
  with it.
\<close>

definition hinv :: "Helper \<Rightarrow> bool" where
  "hinv h \<longleftrightarrow>
     StateUnactivated \<le> state h \<and> state h \<le> StateShutDown \<and>
     0 \<le> shutdownDeferCount h \<and>
     0 \<le> wg h \<and>
     (isActivated h \<longrightarrow> StateActivated \<le> state h) \<and>
     (state h = StateActivated \<longrightarrow> isActivated h) \<and>
     (StateShuttingDown \<le> state h \<longrightarrow> isScheduledShutdown h \<and> shutdownDeferCount h = 0) \<and>
     (activatingDoneChan h = Closed \<longleftrightarrow> StateActivated \<le> state h) \<and>
     (shutdownStartedChan h = Closed \<longleftrightarrow> StateShuttingDown \<le> state h) \<and>
     (localShutdownDoneChan h = Closed \<longleftrightarrow> StateLocalShutdown \<le> state h) \<and>
     (shutdownDoneChan h = Closed \<longleftrightarrow> StateShutDown \<le> state h)"

text \<open>
  The driver goroutines against the state: none below shutting-down, exactly one from
  there on, and its position fixed by the state.
\<close>

fun drv_ok :: "State \<Rightarrow> drv_pc list \<Rightarrow> bool" where
  "drv_ok st [] = (st < StateShuttingDown)"
| "drv_ok st [DrvHook] = (st = StateShuttingDown)"
| "drv_ok st [DrvLock1 e] = (st = StateShuttingDown)"
| "drv_ok st [DrvWait] = (st = StateLocalShutdown)"
| "drv_ok st [DrvLock2] = (st = StateLocalShutdown)"
| "drv_ok st [DrvDone] = (st = StateShutDown)"
| "drv_ok st (d # d' # ds) = False"

definition sys_inv :: "sys \<Rightarrow> bool" where
  "sys_inv s \<longleftrightarrow> hinv (helper s) \<and> drv_ok (state (helper s)) (drivers s)"

section \<open>The state transitions\<close>

text \<open>
  The transitions the specification lists as the only legal ones, in its words:
  0\<rightarrow>1, 0\<rightarrow>3, 1\<rightarrow>2, 1\<rightarrow>3, 2\<rightarrow>3, 3\<rightarrow>4, 4\<rightarrow>5.
\<close>

definition spec_transitions :: "(State \<times> State) set" where
  "spec_transitions =
     {(StateUnactivated, StateActivating), (StateUnactivated, StateShuttingDown),
      (StateActivating, StateActivated), (StateActivating, StateShuttingDown),
      (StateActivated, StateShuttingDown), (StateShuttingDown, StateLocalShutdown),
      (StateLocalShutdown, StateShutDown)}"

text \<open>
  The transitions of the code: \<^verbatim>\<open>SetIsActivated\<close> is public and also moves a helper
  that was never in \<^verbatim>\<open>StateActivating\<close> to \<^verbatim>\<open>StateActivated\<close>.
\<close>

definition code_transitions :: "(State \<times> State) set" where
  "code_transitions = insert (StateUnactivated, StateActivated) spec_transitions"

text \<open>
  What a step outside the driver does to the state: when it starts the driver it has
  entered shutting-down from below, otherwise it stays or moves up below shutting-down.
\<close>

definition step_ok :: "bool \<Rightarrow> State \<Rightarrow> State \<Rightarrow> bool" where
  "step_ok doShutdownNow st st' \<longleftrightarrow>
     (if doShutdownNow then st < StateShuttingDown \<and> st' = StateShuttingDown
      else st' = st \<or> (st < st' \<and> st' < StateShuttingDown))"

text \<open>One event: a step of an ordinary goroutine, or a step of the driver.\<close>

definition event_ok :: "sys \<Rightarrow> sys \<Rightarrow> bool" where
  "event_ok s s' \<longleftrightarrow>
     (\<exists>b. step_ok b (state (helper s)) (state (helper s')) \<and>
          drivers s' = spawn_driver b (drivers s))
     \<or> (state (helper s') = state (helper s) \<and> length (drivers s') = length (drivers s))
     \<or> (state (helper s), state (helper s')) = (StateShuttingDown, StateLocalShutdown)
     \<or> (state (helper s), state (helper s')) = (StateLocalShutdown, StateShutDown)"

text \<open>
  What no step changes: the managed object; once the state is at least activated, the
  installed shutdown hook; and, once shutdown is scheduled, the scheduled flag and the
  terminal error, except that the driver replaces the error on the step from
  shutting-down to local-shutdown.
\<close>

definition frame :: "Helper \<Rightarrow> Helper \<Rightarrow> bool" where
  "frame h h' \<longleftrightarrow>
     obj h' = obj h \<and>
     (StateActivated \<le> state h \<longrightarrow> shutdownHandler h' = shutdownHandler h) \<and>
     (isScheduledShutdown h \<longrightarrow>
        isScheduledShutdown h' \<and>
        (shutdownErr h' = shutdownErr h \<or>
         state h = StateShuttingDown \<and> state h' = StateLocalShutdown))"

section \<open>Example inputs\<close>

text \<open>
  An object that implements \<^verbatim>\<open>HandleOnceShutdowner\<close> (returning the advisory error) but
  not \<^verbatim>\<open>HandleOnceActivator\<close>; the helper \<^verbatim>\<open>NewHelper\<close> makes for it; that helper
  while a call of \<^verbatim>\<open>DoOnceActivate\<close> runs its hook; and that helper in the three states
  of a shutdown scheduled with the advisory error \<open>''boom''\<close>.
\<close>

definition ex_obj :: ManagedObj where
  "ex_obj = \<lparr>HandleOnceActivate = None, HandleOnceShutdown = Some (\<lambda>e. e)\<rparr>"

text \<open>An activation hook that succeeds, and a shutdown hook that returns nil.\<close>

definition ex_callback :: OnceActivateCallback where
  "ex_callback u = None"

definition ex_handler :: OnceShutdownHandler where
  "ex_handler e = None"

text \<open>An activation hook that fails with the error \<open>''E''\<close>.\<close>

definition ex_callback_fails :: OnceActivateCallback where
  "ex_callback_fails u = Some ''E''"

definition ex_helper :: Helper where
  "ex_helper = \<lparr> lg = Some NilLogger, obj = ex_obj, state = StateUnactivated,
                  shutdownHandler = None, shutdownDeferCount = 0, isActivated = False,
                  isScheduledShutdown = False, shutdownErr = None,
                  activatingDoneChan = Open, shutdownStartedChan = Open,
                  localShutdownDoneChan = Open, shutdownDoneChan = Open, wg = 0 \<rparr>"

definition ex_activating :: Helper where
  "ex_activating = ex_helper\<lparr> state := StateActivating, shutdownDeferCount := 1 \<rparr>"

definition ex_shutting_down :: Helper where
  "ex_shutting_down = ex_helper\<lparr> state := StateShuttingDown, isScheduledShutdown := True,
                         shutdownErr := Some ''boom'',
                         activatingDoneChan := Closed, shutdownStartedChan := Closed \<rparr>"

definition ex_local_shutdown :: Helper where
  "ex_local_shutdown = ex_shutting_down\<lparr> state := StateLocalShutdown,
                          localShutdownDoneChan := Closed \<rparr>"

definition ex_shut_down :: Helper where
  "ex_shut_down = ex_local_shutdown\<lparr> state := StateShutDown, shutdownDoneChan := Closed \<rparr>"

text \<open>
  An object with neither capability, and the helper \<^verbatim>\<open>NewHelperWithShutdownHandler\<close>
  makes for it when it is given the explicit shutdown hook \<open>ex_handler\<close>.
\<close>

definition ex_bare_obj :: ManagedObj where
  "ex_bare_obj = \<lparr>HandleOnceActivate = None, HandleOnceShutdown = None\<rparr>"

definition ex_bare_helper :: Helper where
  "ex_bare_helper = ex_helper\<lparr> obj := ex_bare_obj, shutdownHandler := Some ex_handler \<rparr>"

text \<open>A system with no call of \<^verbatim>\<open>DoOnceActivate\<close> in progress.\<close>

definition ex_sys :: "Helper \<Rightarrow> drv_pc list \<Rightarrow> sys" where
  "ex_sys h ds = \<lparr>helper = h, activators = [], drivers = ds\<rparr>"

text \<open>
  What the scenarios below look at: the state, the activated flag, the deferral count, the
  terminal error, where each call of \<^verbatim>\<open>DoOnceActivate\<close> is, and the driver.
\<close>

definition observe :: "sys \<Rightarrow> State \<times> bool \<times> int \<times> error \<times> act_pc list \<times> drv_pc list" where
  "observe s = (state (helper s), isActivated (helper s), shutdownDeferCount (helper s),
                shutdownErr (helper s), map pc (activators s), drivers s)"

section \<open>Unfolding rules\<close>

lemmas State_defs = StateUnactivated_def StateActivating_def StateActivated_def
  StateShuttingDown_def StateLocalShutdown_def StateShutDown_def

section \<open>The invariant is kept by every operation\<close>

lemmas op_defs = SetLg_def SetOnceShutdownHandler_def DeferShutdown_def SetIsActivated_def
  lockedEnterShuttingDownState_def UndeferShutdown_def StartShutdown_def ShutdownWGAdd_def
  wg_Done_def AddShutdownChildChan_def AddAsyncShutdownChild_def AddSyncCloseChild_def
  WaitShutdown_def WaitLocalShutdown_def DoOnceActivate_locked_def close_chan_def lg_Panic_def
  WaitGroup_Add_def

lemma chan_not_Closed: "(c \<noteq> Closed) = (c = Open)"
  by (cases c) simp_all

text \<open>
  The invariant read state by state: what the flags, the deferral count and the four
  channels are in each of the six states.
\<close>

lemma hinv_cases:
  assumes "hinv h"
  obtains
    (unactivated) "state h = 0" "\<not> isActivated h" "0 \<le> shutdownDeferCount h" "0 \<le> wg h"
      "activatingDoneChan h = Open" "shutdownStartedChan h = Open"
      "localShutdownDoneChan h = Open" "shutdownDoneChan h = Open"
  | (activating) "state h = 1" "\<not> isActivated h" "0 \<le> shutdownDeferCount h" "0 \<le> wg h"
      "activatingDoneChan h = Open" "shutdownStartedChan h = Open"
      "localShutdownDoneChan h = Open" "shutdownDoneChan h = Open"
  | (activated) "state h = 2" "isActivated h" "0 \<le> shutdownDeferCount h" "0 \<le> wg h"
      "activatingDoneChan h = Closed" "shutdownStartedChan h = Open"
      "localShutdownDoneChan h = Open" "shutdownDoneChan h = Open"
  | (shutting) "state h = 3" "isScheduledShutdown h" "shutdownDeferCount h = 0" "0 \<le> wg h"
      "activatingDoneChan h = Closed" "shutdownStartedChan h = Closed"
      "localShutdownDoneChan h = Open" "shutdownDoneChan h = Open"
  | (local) "state h = 4" "isScheduledShutdown h" "shutdownDeferCount h = 0" "0 \<le> wg h"
      "activatingDoneChan h = Closed" "shutdownStartedChan h = Closed"
      "localShutdownDoneChan h = Closed" "shutdownDoneChan h = Open"
  | (down) "state h = 5" "isScheduledShutdown h" "shutdownDeferCount h = 0" "0 \<le> wg h"
      "activatingDoneChan h = Closed" "shutdownStartedChan h = Closed"
      "localShutdownDoneChan h = Closed" "shutdownDoneChan h = Closed"
proof -
  from assms have r: "0 \<le> state h" "state h \<le> 5"
    by (simp_all add: hinv_def State_defs)
  then consider "state h = 0" | "state h = 1" | "state h = 2" | "state h = 3" | "state h = 4" | "state h = 5"
    by arith
  then show thesis
  proof cases
    case 1
    with assms have "\<not> isActivated h \<and> 0 \<le> shutdownDeferCount h \<and> 0 \<le> wg h \<and>
      activatingDoneChan h = Open \<and> shutdownStartedChan h = Open \<and>
      localShutdownDoneChan h = Open \<and> shutdownDoneChan h = Open"
      by (simp add: hinv_def State_defs chan_not_Closed)
    with 1 show ?thesis by (intro unactivated) simp_all
  next
    case 2
    with assms have "\<not> isActivated h \<and> 0 \<le> shutdownDeferCount h \<and> 0 \<le> wg h \<and>
      activatingDoneChan h = Open \<and> shutdownStartedChan h = Open \<and>
      localShutdownDoneChan h = Open \<and> shutdownDoneChan h = Open"
      by (simp add: hinv_def State_defs chan_not_Closed)
    with 2 show ?thesis by (intro activating) simp_all
  next
    case 3
    with assms have "isActivated h \<and> 0 \<le> shutdownDeferCount h \<and> 0 \<le> wg h \<and>
      activatingDoneChan h = Closed \<and> shutdownStartedChan h = Open \<and>
      localShutdownDoneChan h = Open \<and> shutdownDoneChan h = Open"
      by (simp add: hinv_def State_defs chan_not_Closed)
    with 3 show ?thesis by (intro activated) simp_all
  next
    case 4
    with assms have "isScheduledShutdown h \<and> shutdownDeferCount h = 0 \<and> 0 \<le> wg h \<and>
      activatingDoneChan h = Closed \<and> shutdownStartedChan h = Closed \<and>
      localShutdownDoneChan h = Open \<and> shutdownDoneChan h = Open"
      by (simp add: hinv_def State_defs chan_not_Closed)
    with 4 show ?thesis by (intro shutting) simp_all
  next
    case 5
    with assms have "isScheduledShutdown h \<and> shutdownDeferCount h = 0 \<and> 0 \<le> wg h \<and>
      activatingDoneChan h = Closed \<and> shutdownStartedChan h = Closed \<and>
      localShutdownDoneChan h = Closed \<and> shutdownDoneChan h = Open"
      by (simp add: hinv_def State_defs chan_not_Closed)
    with 5 show ?thesis by (intro local) simp_all
  next
    case 6
    with assms have "isScheduledShutdown h \<and> shutdownDeferCount h = 0 \<and> 0 \<le> wg h \<and>
      activatingDoneChan h = Closed \<and> shutdownStartedChan h = Closed \<and>
      localShutdownDoneChan h = Closed \<and> shutdownDoneChan h = Closed"
      by (simp add: hinv_def State_defs chan_not_Closed)
    with 6 show ?thesis by (intro down) simp_all
  qed
qed

text \<open>
  Each locked section keeps the invariant and moves the state as \<open>step_ok\<close> says; none
  of the channels is closed twice.
\<close>

lemma hinv_UndeferShutdown:
  assumes "hinv h" and "UndeferShutdown h = Inr (b, h')"
  shows "hinv h' \<and> step_ok b (state h) (state h')"
  using assms(1)
proof (cases rule: hinv_cases)
  case unactivated
  with assms(2) show ?thesis
    by (auto simp: hinv_def step_ok_def op_defs State_defs Let_def split: if_splits)
next
  case activating
  with assms(2) show ?thesis
    by (auto simp: hinv_def step_ok_def op_defs State_defs Let_def split: if_splits)
next
  case activated
  with assms(2) show ?thesis
    by (auto simp: hinv_def step_ok_def op_defs State_defs Let_def split: if_splits)
next
  case shutting
  with assms(2) show ?thesis
    by (simp add: op_defs)
next
  case local
  with assms(2) show ?thesis
    by (simp add: op_defs)
next
  case down
  with assms(2) show ?thesis
    by (simp add: op_defs)
qed

lemma hinv_new: "NewHelperWithShutdownHandler ob l sh = Inr h \<Longrightarrow> hinv h"
  by (auto simp: NewHelperWithShutdownHandler_def hinv_def State_defs split: if_splits)

lemma hinv_SetLg: "hinv h \<Longrightarrow> hinv (SetLg l h) \<and> state (SetLg l h) = state h"
  by (simp add: hinv_def SetLg_def)

lemma hinv_shutdownHandler_update: "hinv (h\<lparr>shutdownHandler := x\<rparr>) = hinv h"
  by (simp add: hinv_def)

lemma hinv_SetOnceShutdownHandler:
  "hinv h \<Longrightarrow> hinv (snd (SetOnceShutdownHandler cb h)) \<and> state (snd (SetOnceShutdownHandler cb h)) = state h"
  by (simp add: SetOnceShutdownHandler_def hinv_shutdownHandler_update)

lemma hinv_DeferShutdown:
  assumes "hinv h"
  shows "hinv (snd (DeferShutdown h)) \<and> state (snd (DeferShutdown h)) = state h"
  using assms
  by (cases rule: hinv_cases) (simp_all add: hinv_def DeferShutdown_def State_defs)

lemma hinv_wg_update: "hinv h \<Longrightarrow> 0 \<le> n \<Longrightarrow> hinv (h\<lparr>wg := n\<rparr>)"
  by (simp add: hinv_def)

lemma hinv_WaitGroup_Add:
  "hinv h \<Longrightarrow> WaitGroup_Add delta h = Inr h' \<Longrightarrow> hinv h' \<and> state h' = state h"
  by (auto simp: WaitGroup_Add_def Let_def hinv_wg_update split: if_splits)

lemma hinv_AddShutdownChildChan:
  "hinv h \<Longrightarrow> AddShutdownChildChan h = Inr (e, h') \<Longrightarrow> hinv h' \<and> state h' = state h"
  by (auto simp: AddShutdownChildChan_def split: if_splits sum.splits dest: hinv_WaitGroup_Add)

lemma hinv_AddAsyncShutdownChild:
  "hinv h \<Longrightarrow> AddAsyncShutdownChild h = Inr (e, h') \<Longrightarrow> hinv h' \<and> state h' = state h"
  by (auto simp: AddAsyncShutdownChild_def split: if_splits sum.splits dest: hinv_WaitGroup_Add)

lemma hinv_AddSyncCloseChild:
  "hinv h \<Longrightarrow> AddSyncCloseChild h = Inr (e, h') \<Longrightarrow> hinv h' \<and> state h' = state h"
  by (auto simp: AddSyncCloseChild_def split: if_splits sum.splits dest: hinv_WaitGroup_Add)

lemma hinv_ShutdownWGAdd:
  "hinv h \<Longrightarrow> ShutdownWGAdd delta h = Inr (e, h') \<Longrightarrow> hinv h' \<and> state h' = state h"
  by (auto simp: ShutdownWGAdd_def split: if_splits sum.splits dest: hinv_WaitGroup_Add)

lemma hinv_wg_Done:
  "hinv h \<Longrightarrow> wg_Done h = Inr h' \<Longrightarrow> hinv h' \<and> state h' = state h"
  by (auto simp: wg_Done_def dest: hinv_WaitGroup_Add)

lemma hinv_SetIsActivated:
  assumes "hinv h" and "SetIsActivated h = Inr (e, h')"
  shows "hinv h' \<and> step_ok False (state h) (state h')"
  using assms(1)
proof (cases rule: hinv_cases)
  case unactivated
  with assms(2) show ?thesis
    by (auto simp: hinv_def step_ok_def SetIsActivated_def close_chan_def State_defs)
next
  case activating
  with assms(2) show ?thesis
    by (auto simp: hinv_def step_ok_def SetIsActivated_def close_chan_def State_defs)
next
  case activated
  with assms show ?thesis
    by (simp add: step_ok_def SetIsActivated_def)
next
  case shutting
  with assms show ?thesis
    by (auto simp: step_ok_def SetIsActivated_def State_defs split: if_splits)
next
  case local
  with assms show ?thesis
    by (auto simp: step_ok_def SetIsActivated_def State_defs split: if_splits)
next
  case down
  with assms show ?thesis
    by (auto simp: step_ok_def SetIsActivated_def State_defs split: if_splits)
qed

lemma hinv_StartShutdown:
  assumes "hinv h" and "StartShutdown e h = Inr ((f, b), h')"
  shows "hinv h' \<and> step_ok b (state h) (state h')"
  using assms(1)
proof (cases rule: hinv_cases)
  case unactivated
  with assms(2) show ?thesis
    by (auto simp: hinv_def step_ok_def op_defs State_defs Let_def split: if_splits)
next
  case activating
  with assms(2) show ?thesis
    by (auto simp: hinv_def step_ok_def op_defs State_defs Let_def split: if_splits)
next
  case activated
  with assms(2) show ?thesis
    by (auto simp: hinv_def step_ok_def op_defs State_defs Let_def split: if_splits)
next
  case shutting
  with assms show ?thesis
    by (simp add: StartShutdown_def step_ok_def)
next
  case local
  with assms show ?thesis
    by (simp add: StartShutdown_def step_ok_def)
next
  case down
  with assms show ?thesis
    by (simp add: StartShutdown_def step_ok_def)
qed

lemma hinv_DoOnceActivate_locked:
  assumes "hinv h" and "state h \<noteq> StateActivating" and "DoOnceActivate_locked w h = (p, h')"
  shows "hinv h' \<and> step_ok False (state h) (state h')"
  using assms(1)
proof (cases rule: hinv_cases)
  case unactivated
  with assms(3) show ?thesis
    by (auto simp: hinv_def step_ok_def DoOnceActivate_locked_def State_defs)
next
  case activating
  with assms(2) show ?thesis by (simp add: State_defs)
next
  case activated
  with assms show ?thesis
    by (simp add: step_ok_def DoOnceActivate_locked_def)
next
  case shutting
  with assms show ?thesis
    by (auto simp: step_ok_def DoOnceActivate_locked_def State_defs split: if_splits)
next
  case local
  with assms show ?thesis
    by (auto simp: step_ok_def DoOnceActivate_locked_def State_defs split: if_splits)
next
  case down
  with assms show ?thesis
    by (auto simp: step_ok_def DoOnceActivate_locked_def State_defs split: if_splits)
qed

lemma step_ok_refl: "step_ok False st st"
  by (simp add: step_ok_def)

lemma hinv_DoOnceActivate_step:
  assumes "hinv h" and "DoOnceActivate_step cb w p h = Inr (p', b, h')"
  shows "hinv h' \<and> step_ok b (state h) (state h')"
proof (cases p)
  case ActEntry
  with assms show ?thesis
    by (auto simp: step_ok_refl split: if_splits prod.splits dest: hinv_DoOnceActivate_locked)
next
  case ActWaitActivatingDone
  from assms ActWaitActivatingDone have "activatingDoneChan h = Closed"
    by (auto split: chan.splits)
  with assms(1) have "state h \<noteq> StateActivating"
    by (auto simp: hinv_def State_defs)
  with assms ActWaitActivatingDone show ?thesis
    by (auto split: chan.splits prod.splits dest: hinv_DoOnceActivate_locked)
next
  case ActWaitShutdownEarly
  with assms show ?thesis
    by (auto simp: step_ok_refl split: sum.splits)
next
  case ActHook
  with assms show ?thesis
    by (auto simp: step_ok_refl split: option.splits)
next
  case (ActSetIsActivated e)
  with assms show ?thesis
    by (auto simp: step_ok_refl split: if_splits sum.splits dest: hinv_SetIsActivated)
next
  case (ActStartShutdown e)
  with assms show ?thesis
    by (auto simp: step_ok_refl split: if_splits sum.splits dest: hinv_StartShutdown)
next
  case (ActUndeferShutdown e)
  with assms show ?thesis
    by (auto split: if_splits sum.splits dest: hinv_UndeferShutdown)
next
  case (ActWaitShutdownLate e)
  with assms show ?thesis
    by (auto simp: step_ok_refl split: sum.splits)
next
  case (ActReturned e)
  with assms show ?thesis by simp
qed

text \<open>The driver: there is at most one, and each of its steps fits the state.\<close>

lemma drv_ok_single: "drv_ok st ds \<Longrightarrow> i < length ds \<Longrightarrow> i = 0 \<and> ds = [ds ! 0]"
  by (induction st ds rule: drv_ok.induct) auto

lemma hinv_driver_step:
  assumes "hinv h" and "drv_ok (state h) [d]" and "asyncDoStartedShutdown_step d h = Inr (d', h')"
  shows "hinv h' \<and> drv_ok (state h') [d'] \<and>
         (state h' = state h \<or>
          (state h, state h') = (StateShuttingDown, StateLocalShutdown) \<or>
          (state h, state h') = (StateLocalShutdown, StateShutDown))"
proof (cases d)
  case DrvHook
  with assms show ?thesis by (auto split: option.splits)
next
  case (DrvLock1 e)
  with assms(2) have "state h = 3" by (simp add: State_defs)
  with assms(1) have "localShutdownDoneChan h = Open" "isScheduledShutdown h"
      "shutdownDeferCount h = 0" "0 \<le> wg h" "activatingDoneChan h = Closed"
      "shutdownStartedChan h = Closed" "shutdownDoneChan h = Open"
    by (cases rule: hinv_cases; simp)+
  with assms(3) DrvLock1 \<open>state h = 3\<close> show ?thesis
    by (auto simp: hinv_def close_chan_def State_defs Let_def)
next
  case DrvWait
  with assms show ?thesis by (auto split: if_splits)
next
  case DrvLock2
  with assms(2) have "state h = 4" by (simp add: State_defs)
  with assms(1) have "localShutdownDoneChan h = Closed" "isScheduledShutdown h"
      "shutdownDeferCount h = 0" "0 \<le> wg h" "activatingDoneChan h = Closed"
      "shutdownStartedChan h = Closed" "shutdownDoneChan h = Open"
    by (cases rule: hinv_cases; simp)+
  with assms(3) DrvLock2 \<open>state h = 4\<close> show ?thesis
    by (auto simp: hinv_def close_chan_def State_defs Let_def)
next
  case DrvDone
  with assms show ?thesis by simp
qed

lemma drv_ok_spawn:
  "drv_ok st ds \<Longrightarrow> step_ok b st st' \<Longrightarrow> drv_ok st' (spawn_driver b ds)"
  by (induction st ds rule: drv_ok.induct)
     (auto simp: step_ok_def spawn_driver_def State_defs split: if_splits)

text \<open>From \<open>step_ok\<close> to the transitions of the code.\<close>

lemma hinv_state_range:
  assumes "hinv h"
  shows "state h \<in> {0, 1, 2, 3, 4, 5}"
  using assms by (cases rule: hinv_cases) simp_all

lemma step_ok_mono: "step_ok b st st' \<Longrightarrow> st \<le> st'"
  by (auto simp: step_ok_def split: if_splits)

lemma code_transitions_iff:
  "(x, y) \<in> code_transitions \<longleftrightarrow>
      x = 0 \<and> y = 1 \<or> x = 0 \<and> y = 2 \<or> x = 0 \<and> y = 3 \<or> x = 1 \<and> y = 2 \<or> x = 1 \<and> y = 3 \<or>
      x = 2 \<and> y = 3 \<or> x = 3 \<and> y = 4 \<or> x = 4 \<and> y = 5"
  unfolding code_transitions_def spec_transitions_def State_defs by blast

lemma step_ok_transition:
  assumes "step_ok b st st'" and "st \<in> {0, 1, 2, 3, 4, 5}" and "st' \<in> {0, 1, 2, 3, 4, 5}"
  shows "st' = st \<or> (st, st') \<in> code_transitions"
proof -
  from assms(2) consider "st = 0" | "st = 1" | "st = 2" | "st = 3" | "st = 4" | "st = 5"
    by blast
  then show ?thesis
  proof cases
    case 1
    with assms(1,3) show ?thesis
      unfolding code_transitions_iff step_ok_def State_defs by (cases b) auto
  next
    case 2
    with assms(1,3) show ?thesis
      unfolding code_transitions_iff step_ok_def State_defs by (cases b) auto
  next
    case 3
    with assms(1,3) show ?thesis
      unfolding code_transitions_iff step_ok_def State_defs by (cases b) auto
  next
    case 4
    with assms(1,3) show ?thesis
      unfolding code_transitions_iff step_ok_def State_defs by (cases b) auto
  next
    case 5
    with assms(1,3) show ?thesis
      unfolding code_transitions_iff step_ok_def State_defs by (cases b) auto
  next
    case 6
    with assms(1,3) show ?thesis
      unfolding code_transitions_iff step_ok_def State_defs by (cases b) auto
  qed
qed

text \<open>Every event keeps the invariant of the helper and of the driver.\<close>

lemma spawn_driver_False: "spawn_driver False ds = ds"
  by (simp add: spawn_driver_def)

lemma exec_hinv:
  assumes "sys_inv s" and "exec ev s = Inr s'"
  shows "hinv (helper s') \<and> drv_ok (state (helper s')) (drivers s') \<and> event_ok s s'"
proof -
  from assms(1) have hi: "hinv (helper s)" and dk: "drv_ok (state (helper s)) (drivers s)"
    by (simp_all add: sys_inv_def)
  have plain: "hinv h' \<and> state h' = state (helper s) \<Longrightarrow> s' = s\<lparr>helper := h'\<rparr> \<Longrightarrow> ?thesis" for h'
    using dk by (auto simp: event_ok_def)
  have spawning: "hinv h' \<and> step_ok b (state (helper s)) (state h') \<Longrightarrow>
      helper s' = h' \<Longrightarrow> drivers s' = spawn_driver b (drivers s) \<Longrightarrow> ?thesis" for h' b
    using dk by (auto simp: event_ok_def drv_ok_spawn)
  show ?thesis
  proof (cases ev)
    case (EvSetLg l)
    with assms(2) show ?thesis by (intro plain[OF hinv_SetLg[OF hi]]) auto
  next
    case (EvSetOnceShutdownHandler cb)
    with assms(2) show ?thesis by (intro plain[OF hinv_SetOnceShutdownHandler[OF hi]]) auto
  next
    case EvDeferShutdown
    with assms(2) show ?thesis by (intro plain[OF hinv_DeferShutdown[OF hi]]) auto
  next
    case EvSetIsActivated
    with assms(2) obtain e h' where r: "SetIsActivated (helper s) = Inr (e, h')" "s' = s\<lparr>helper := h'\<rparr>"
      by (auto split: sum.splits)
    from hinv_SetIsActivated[OF hi r(1)] r(2) show ?thesis
      by (intro spawning[where b = False]) (simp_all add: spawn_driver_False)
  next
    case EvUndeferShutdown
    with assms(2) obtain b h' where r: "UndeferShutdown (helper s) = Inr (b, h')"
        "s' = s\<lparr>helper := h', drivers := spawn_driver b (drivers s)\<rparr>"
      by (auto split: sum.splits)
    from hinv_UndeferShutdown[OF hi r(1)] r(2) show ?thesis
      by (intro spawning[where b = b]) simp_all
  next
    case (EvStartShutdown e)
    with assms(2) obtain f b h' where r: "StartShutdown e (helper s) = Inr ((f, b), h')"
        "s' = s\<lparr>helper := h', drivers := spawn_driver b (drivers s)\<rparr>"
      by (auto split: sum.splits)
    from hinv_StartShutdown[OF hi r(1)] r(2) show ?thesis
      by (intro spawning[where b = b]) simp_all
  next
    case (EvShutdownWGAdd delta)
    with assms(2) obtain e h' where r: "ShutdownWGAdd delta (helper s) = Inr (e, h')" "s' = s\<lparr>helper := h'\<rparr>"
      by (auto split: sum.splits)
    from hinv_ShutdownWGAdd[OF hi r(1)] r(2) show ?thesis
      by (intro plain) simp_all
  next
    case EvWGDone
    with assms(2) obtain h' where r: "wg_Done (helper s) = Inr h'" "s' = s\<lparr>helper := h'\<rparr>"
      by (auto split: sum.splits)
    from hinv_wg_Done[OF hi r(1)] r(2) show ?thesis
      by (intro plain) simp_all
  next
    case EvAddShutdownChildChan
    with assms(2) obtain e h' where r: "AddShutdownChildChan (helper s) = Inr (e, h')" "s' = s\<lparr>helper := h'\<rparr>"
      by (auto split: sum.splits)
    from hinv_AddShutdownChildChan[OF hi r(1)] r(2) show ?thesis
      by (intro plain) simp_all
  next
    case EvAddAsyncShutdownChild
    with assms(2) obtain e h' where r: "AddAsyncShutdownChild (helper s) = Inr (e, h')" "s' = s\<lparr>helper := h'\<rparr>"
      by (auto split: sum.splits)
    from hinv_AddAsyncShutdownChild[OF hi r(1)] r(2) show ?thesis
      by (intro plain) simp_all
  next
    case EvAddSyncCloseChild
    with assms(2) obtain e h' where r: "AddSyncCloseChild (helper s) = Inr (e, h')" "s' = s\<lparr>helper := h'\<rparr>"
      by (auto split: sum.splits)
    from hinv_AddSyncCloseChild[OF hi r(1)] r(2) show ?thesis
      by (intro plain) simp_all
  next
    case (EvDoOnceActivate cb w)
    with assms(2) hi dk show ?thesis by (auto simp: event_ok_def)
  next
    case (EvActivatorStep i)
    with assms(2) obtain p' b h' where
        r: "DoOnceActivate_step (onceActivateCallback (activators s ! i)) (waitOnFail (activators s ! i))
              (pc (activators s ! i)) (helper s) = Inr (p', b, h')"
        "helper s' = h'" "drivers s' = spawn_driver b (drivers s)"
      by (auto simp: Let_def split: if_splits sum.splits)
    from hinv_DoOnceActivate_step[OF hi r(1)] r(2,3) show ?thesis
      by (intro spawning[where b = b]) simp_all
  next
    case (EvDriverStep i)
    with assms(2) have i: "i < length (drivers s)"
      by (auto split: if_splits)
    from drv_ok_single[OF dk i] have i0: "i = 0" and ds: "drivers s = [drivers s ! 0]"
      by simp_all
    from assms(2) EvDriverStep i i0 obtain d' h' where
        r: "asyncDoStartedShutdown_step (drivers s ! 0) (helper s) = Inr (d', h')"
        "helper s' = h'" "drivers s' = (drivers s)[0 := d']"
      by (auto split: sum.splits)
    from ds r(3) have ds': "drivers s' = [d']"
      by (metis list_update_code(2))
    from ds have len: "length (drivers s) = Suc 0"
      by (metis length_Cons list.size(3))
    from dk ds have "drv_ok (state (helper s)) [drivers s ! 0]" by simp
    from hinv_driver_step[OF hi this r(1)] r(2) ds' len show ?thesis
      by (simp add: event_ok_def)
  qed
qed

lemma exec_sys_inv:
  assumes "sys_inv s" and "exec ev s = Inr s'"
  shows "sys_inv s'"
  using exec_hinv[OF assms] by (simp add: sys_inv_def)

lemma event_ok_mono: "event_ok s s' \<Longrightarrow> state (helper s) \<le> state (helper s')"
  by (auto simp: event_ok_def State_defs dest: step_ok_mono)

lemma event_ok_transition:
  assumes "event_ok s s'" and "hinv (helper s)" and "hinv (helper s')"
  shows "state (helper s') = state (helper s) \<or> (state (helper s), state (helper s')) \<in> code_transitions"
proof -
  from assms(1) consider
      b where "step_ok b (state (helper s)) (state (helper s'))"
    | "state (helper s') = state (helper s)"
    | "state (helper s) = 3 \<and> state (helper s') = 4"
    | "state (helper s) = 4 \<and> state (helper s') = 5"
    unfolding event_ok_def State_defs by auto
  then show ?thesis
  proof cases
    case 1
    then show ?thesis
      by (rule step_ok_transition[OF _ hinv_state_range[OF assms(2)] hinv_state_range[OF assms(3)]])
  next
    case 2
    then show ?thesis by simp
  next
    case 3
    then show ?thesis by (simp add: code_transitions_iff)
  next
    case 4
    then show ?thesis by (simp add: code_transitions_iff)
  qed
qed

lemma run_sys_inv: "sys_inv s \<Longrightarrow> run evs s = Inr s' \<Longrightarrow> sys_inv s'"
proof (induction evs arbitrary: s)
  case Nil
  then show ?case by simp
next
  case (Cons ev evs)
  then show ?case
    by (auto split: sum.splits dest: exec_sys_inv)
qed

lemma run_state_mono:
  "sys_inv s \<Longrightarrow> run evs s = Inr s' \<Longrightarrow> state (helper s) \<le> state (helper s')"
proof (induction evs arbitrary: s)
  case Nil
  then show ?case by simp
next
  case (Cons ev evs)
  from Cons.prems obtain s1 where s1: "exec ev s = Inr s1" "run evs s1 = Inr s'"
    by (auto split: sum.splits)
  from exec_hinv[OF Cons.prems(1) s1(1)] have "sys_inv s1" "state (helper s) \<le> state (helper s1)"
    by (simp_all add: sys_inv_def event_ok_mono)
  with Cons.IH[OF this(1) s1(2)] show ?case by simp
qed

lemma init_sys_inv: "NewHelperWithShutdownHandler ob l sh = Inr h0 \<Longrightarrow> sys_inv (init_sys h0)"
  by (frule hinv_new) (auto simp: sys_inv_def init_sys_def NewHelperWithShutdownHandler_def State_defs split: if_splits)



section \<open>What stays fixed\<close>

text \<open>Every event leaves what \<open>frame\<close> names as it is.\<close>

lemma frame_refl: "frame h h"
  by (simp add: frame_def)

lemma frame_SetIsActivated: "SetIsActivated h = Inr (e, h') \<Longrightarrow> frame h h'"
  by (auto simp: frame_def SetIsActivated_def close_chan_def split: if_splits chan.splits)

lemma frame_lockedEnter: "lockedEnterShuttingDownState h = Inr h' \<Longrightarrow> frame h h'"
  by (auto simp: frame_def lockedEnterShuttingDownState_def close_chan_def Let_def
           split: if_splits chan.splits)

lemma frame_UndeferShutdown: "UndeferShutdown h = Inr (b, h') \<Longrightarrow> frame h h'"
  by (auto simp: UndeferShutdown_def Let_def split: if_splits sum.splits dest!: frame_lockedEnter)
     (auto simp: frame_def)

lemma frame_StartShutdown: "StartShutdown e h = Inr (r, h') \<Longrightarrow> frame h h'"
  by (auto simp: StartShutdown_def Let_def split: if_splits sum.splits dest!: frame_lockedEnter)
     (auto simp: frame_def)

lemma frame_DoOnceActivate_step: "DoOnceActivate_step cb w p h = Inr (p', b, h') \<Longrightarrow> frame h h'"
  by (cases p)
     (auto simp: frame_refl DoOnceActivate_locked_def
           split: if_splits sum.splits chan.splits option.splits
           dest: frame_SetIsActivated frame_StartShutdown frame_UndeferShutdown,
      auto simp: frame_def)

lemma frame_driver_step:
  "drv_ok (state h) [d] \<Longrightarrow> asyncDoStartedShutdown_step d h = Inr (d', h') \<Longrightarrow> frame h h'"
  by (cases d)
     (auto simp: frame_def close_chan_def Let_def split: option.splits chan.splits if_splits)

lemma exec_frame:
  assumes "sys_inv s" and "exec ev s = Inr s'"
  shows "frame (helper s) (helper s')"
proof (cases ev)
  case (EvDriverStep i)
  from assms(1) have dk: "drv_ok (state (helper s)) (drivers s)"
    by (simp add: sys_inv_def)
  from assms(2) EvDriverStep have i: "i < length (drivers s)"
    by (auto split: if_splits)
  from drv_ok_single[OF dk i] have i0: "i = 0" and ds: "drivers s = [drivers s ! 0]"
    by simp_all
  from dk ds have "drv_ok (state (helper s)) [drivers s ! 0]" by simp
  with assms(2) EvDriverStep i i0 show ?thesis
    by (auto split: sum.splits dest: frame_driver_step)
qed (use assms(2) in \<open>auto simp: frame_refl SetLg_def SetOnceShutdownHandler_def DeferShutdown_def
                 ShutdownWGAdd_def wg_Done_def AddShutdownChildChan_def
                 AddAsyncShutdownChild_def AddSyncCloseChild_def WaitGroup_Add_def Let_def
           split: if_splits sum.splits
           dest: frame_SetIsActivated frame_StartShutdown frame_UndeferShutdown
                 frame_DoOnceActivate_step,
      auto simp: frame_def\<close>)

lemma run_frame:
  "sys_inv s \<Longrightarrow> run evs s = Inr s' \<Longrightarrow>
   obj (helper s') = obj (helper s) \<and>
   (isScheduledShutdown (helper s) \<longrightarrow>
      isScheduledShutdown (helper s') \<and>
      (shutdownErr (helper s') = shutdownErr (helper s) \<or>
       state (helper s) \<le> StateShuttingDown \<and> StateLocalShutdown \<le> state (helper s')))"
proof (induction evs arbitrary: s)
  case Nil
  then show ?case by simp
next
  case (Cons ev evs)
  from Cons.prems obtain s1 where s1: "exec ev s = Inr s1" "run evs s1 = Inr s'"
    by (auto split: sum.splits)
  from exec_sys_inv[OF Cons.prems(1) s1(1)] have i1: "sys_inv s1" .
  from exec_frame[OF Cons.prems(1) s1(1)] have f: "frame (helper s) (helper s1)" .
  from exec_hinv[OF Cons.prems(1) s1(1)] have m0: "state (helper s) \<le> state (helper s1)"
    by (simp add: event_ok_mono)
  from run_state_mono[OF i1 s1(2)] have m: "state (helper s1) \<le> state (helper s')" .
  from Cons.IH[OF i1 s1(2)] f m m0 show ?case
    by (auto simp: frame_def State_defs)
qed

text \<open>
  Once local-shutdown is reached the terminal error is final; this is why the receive
  from the channel and the read of \<^verbatim>\<open>h.shutdownErr\<close> in \<^verbatim>\<open>WaitShutdown\<close> and
  \<^verbatim>\<open>WaitLocalShutdown\<close> can be one step.
\<close>

lemma terminal_error_final:
  assumes "sys_inv s" and "StateLocalShutdown \<le> state (helper s)" and "run evs s = Inr s'"
  shows "shutdownErr (helper s') = shutdownErr (helper s)"
proof -
  from assms(1) have "hinv (helper s)" by (simp add: sys_inv_def)
  with assms(2) have "isScheduledShutdown (helper s)"
    by (simp add: hinv_def State_defs)
  with run_frame[OF assms(1,3)] assms(2) show ?thesis
    by (simp add: State_defs)
qed

section \<open>Running the example\<close>

lemmas ex_defs = ex_obj_def ex_helper_def ex_activating_def ex_shutting_down_def
  ex_local_shutdown_def ex_shut_down_def ex_bare_obj_def ex_bare_helper_def ex_sys_def
  init_sys_def

lemmas eval_defs = NewHelperWithShutdownHandler_def op_defs int32_def State_defs
  spawn_driver_def Let_def

lemma ex_new: "NewHelperWithShutdownHandler ex_obj None None = Inr ex_helper"
  by (simp add: ex_defs eval_defs)

lemma ex_run_nothing: "run [] (init_sys ex_helper) = Inr (ex_sys ex_helper [])"
  by (simp add: ex_defs)

lemma ex_run_hook:
  "run [EvStartShutdown (Some ''boom'')] (init_sys ex_helper)
     = Inr (ex_sys ex_shutting_down [DrvHook])"
  by (simp add: ex_defs eval_defs)

lemma ex_run_lock1:
  "run [EvStartShutdown (Some ''boom''), EvDriverStep 0] (init_sys ex_helper)
     = Inr (ex_sys ex_shutting_down [DrvLock1 (Some ''boom'')])"
  by (simp add: ex_defs eval_defs)

lemma ex_run_wait:
  "run [EvStartShutdown (Some ''boom''), EvDriverStep 0, EvDriverStep 0] (init_sys ex_helper)
     = Inr (ex_sys ex_local_shutdown [DrvWait])"
  by (simp add: ex_defs eval_defs)

lemma ex_run_lock2:
  "run [EvStartShutdown (Some ''boom''), EvDriverStep 0, EvDriverStep 0, EvDriverStep 0]
     (init_sys ex_helper)
     = Inr (ex_sys ex_local_shutdown [DrvLock2])"
  by (simp add: ex_defs eval_defs)

lemma ex_run_shut_down:
  "run [EvStartShutdown (Some ''boom''), EvDriverStep 0, EvDriverStep 0, EvDriverStep 0,
        EvDriverStep 0] (init_sys ex_helper)
     = Inr (ex_sys ex_shut_down [DrvDone])"
  by (simp add: ex_defs eval_defs)

lemma ex_run_from_shutting_down:
  "run [EvDriverStep 0, EvDriverStep 0, EvDriverStep 0, EvDriverStep 0]
     (ex_sys ex_shutting_down [DrvHook])
     = Inr (ex_sys ex_shut_down [DrvDone])"
  by (simp add: ex_defs eval_defs)

section \<open>Scenarios of the specification, run on the model\<close>

text \<open>
  Section 8, scenario 1: \<^verbatim>\<open>DoOnceActivate\<close> with a hook that succeeds returns nil and the
  helper is activated; a shutdown with advisory error nil then ends in shut-down with
  terminal error nil.
\<close>

lemma scenario_happy_path:
  "map_sum id observe
     (run [EvDoOnceActivate (Some ex_callback) False,
           EvActivatorStep 0, EvActivatorStep 0, EvActivatorStep 0, EvActivatorStep 0,
           EvActivatorStep 0] (init_sys ex_helper))
     = Inr (StateActivated, True, 0, None, [ActReturned None], []) \<and>
   map_sum id observe
     (run [EvDoOnceActivate (Some ex_callback) False,
           EvActivatorStep 0, EvActivatorStep 0, EvActivatorStep 0, EvActivatorStep 0,
           EvActivatorStep 0,
           EvStartShutdown None, EvDriverStep 0, EvDriverStep 0, EvDriverStep 0, EvDriverStep 0]
          (init_sys ex_helper))
     = Inr (StateShutDown, True, 0, None, [ActReturned None], [DrvDone])"
  by (simp add: ex_defs eval_defs observe_def ex_callback_def)

text \<open>
  Scenario 2: \<^verbatim>\<open>DoOnceActivate\<close> with a hook that fails with \<open>''E''\<close> and
  \<^verbatim>\<open>waitOnFail\<close> set is blocked until the driver has finished, then returns \<open>''E''\<close>; the
  helper is shut down, never activated, with terminal error \<open>''E''\<close>.
\<close>

lemma scenario_activation_failure:
  "map_sum id observe
     (run [EvDoOnceActivate (Some ex_callback_fails) True,
           EvActivatorStep 0, EvActivatorStep 0, EvActivatorStep 0, EvActivatorStep 0,
           EvActivatorStep 0,
           EvDriverStep 0, EvDriverStep 0, EvDriverStep 0, EvDriverStep 0,
           EvActivatorStep 0] (init_sys ex_helper))
     = Inr (StateShutDown, False, 0, Some ''E'', [ActReturned (Some ''E'')], [DrvDone]) \<and>
   run [EvDoOnceActivate (Some ex_callback_fails) True,
        EvActivatorStep 0, EvActivatorStep 0, EvActivatorStep 0, EvActivatorStep 0,
        EvActivatorStep 0, EvActivatorStep 0] (init_sys ex_helper)
     = Inl Blocked"
  by (simp add: ex_defs eval_defs observe_def ex_callback_fails_def)

text \<open>
  Scenario 3: with one deferral outstanding, \<^verbatim>\<open>StartShutdown\<close> only schedules;
  \<^verbatim>\<open>UndeferShutdown\<close> then enters shutting-down and starts the driver, which ends in
  shut-down with the hook's result as terminal error.
\<close>

lemma scenario_deferred_shutdown:
  "map_sum id observe
     (run [EvDeferShutdown, EvStartShutdown (Some ''E1'')] (init_sys ex_helper))
     = Inr (StateUnactivated, False, 1, Some ''E1'', [], []) \<and>
   map_sum id observe
     (run [EvDeferShutdown, EvStartShutdown (Some ''E1''), EvUndeferShutdown] (init_sys ex_helper))
     = Inr (StateShuttingDown, False, 0, Some ''E1'', [], [DrvHook]) \<and>
   map_sum id observe
     (run [EvDeferShutdown, EvStartShutdown (Some ''E1''), EvUndeferShutdown,
           EvDriverStep 0, EvDriverStep 0, EvDriverStep 0, EvDriverStep 0] (init_sys ex_helper))
     = Inr (StateShutDown, False, 0, Some ''E1'', [], [DrvDone])"
  by (simp add: ex_defs eval_defs observe_def)

section \<open>The wait-group counter at its limits\<close>

text \<open>
  On a new helper \<^verbatim>\<open>ShutdownWGAdd(1<<31)\<close> panics, \<^verbatim>\<open>ShutdownWGAdd(1<<32)\<close> returns nil
  and leaves the counter at zero, and \<^verbatim>\<open>Done()\<close> on a counter of zero panics.
\<close>

lemma ShutdownWGAdd_limits:
  "ShutdownWGAdd 2147483648 ex_helper = Inl (GoPanic ''sync: negative WaitGroup counter'') \<and>
   ShutdownWGAdd 4294967296 ex_helper = Inr (None, ex_helper) \<and>
   ShutdownWGAdd 3 ex_helper = Inr (None, ex_helper\<lparr>wg := 3\<rparr>) \<and>
   wg_Done (ex_helper\<lparr>wg := 3\<rparr>) = Inr (ex_helper\<lparr>wg := 2\<rparr>) \<and>
   wg_Done ex_helper = Inl (GoPanic ''sync: negative WaitGroup counter'')"
  by (simp add: ex_defs eval_defs wg_Done_def)

section \<open>The steps of the shutdown driver\<close>

text \<open>
  In every schedule from a new helper there is no driver goroutine while the state is
  below shutting-down and exactly one from then on, its position fixed by the state. Its
  first step calls the shutdown hook (the explicit callback, else the managed object's
  \<^verbatim>\<open>HandleOnceShutdown\<close>; with neither the type assertion panics) on the current terminal
  error; its second step stores the hook's result as the terminal error, sets the state to
  local-shutdown and closes local-shutdown-done; its third step is blocked until the
  wait-group counter is zero; its fourth step sets the state to shut-down and closes
  shutdown-done; then it has ended.
\<close>

lemma driver_steps:
  assumes "NewHelperWithShutdownHandler ob logger sh = Inr h0"
    and "run evs (init_sys h0) = Inr s"
  shows "drv_ok (state (helper s)) (drivers s) \<and>
         (drivers s = [] \<longleftrightarrow> state (helper s) < StateShuttingDown) \<and>
         (StateShuttingDown \<le> state (helper s) \<longrightarrow> length (drivers s) = 1) \<and>
         (drivers s = [DrvHook] \<longrightarrow>
            exec (EvDriverStep 0) s =
              (case (case shutdownHandler (helper s) of
                       None \<Rightarrow> HandleOnceShutdown (obj (helper s))
                     | Some f \<Rightarrow> Some f) of
                 None \<Rightarrow> Inl (GoPanic ''interface conversion: missing method HandleOnceShutdown'')
               | Some f \<Rightarrow> Inr (s\<lparr>drivers := [DrvLock1 (f (shutdownErr (helper s)))]\<rparr>))) \<and>
         (\<forall>e. drivers s = [DrvLock1 e] \<longrightarrow>
            exec (EvDriverStep 0) s =
              Inr (s\<lparr>helper := (helper s)\<lparr>shutdownErr := e, state := StateLocalShutdown,
                                           localShutdownDoneChan := Closed\<rparr>,
                     drivers := [DrvWait]\<rparr>)) \<and>
         (drivers s = [DrvWait] \<longrightarrow>
            exec (EvDriverStep 0) s =
              (if wg (helper s) = 0 then Inr (s\<lparr>drivers := [DrvLock2]\<rparr>) else Inl Blocked)) \<and>
         (drivers s = [DrvLock2] \<longrightarrow>
            exec (EvDriverStep 0) s =
              Inr (s\<lparr>helper := (helper s)\<lparr>state := StateShutDown, shutdownDoneChan := Closed\<rparr>,
                     drivers := [DrvDone]\<rparr>)) \<and>
         (drivers s = [DrvDone] \<longrightarrow> exec (EvDriverStep 0) s = Inl Blocked)"
proof -
  from assms have i: "sys_inv s"
    by (blast intro: run_sys_inv init_sys_inv)
  then have h: "hinv (helper s)" and d: "drv_ok (state (helper s)) (drivers s)"
    by (simp_all add: sys_inv_def)
  have none: "drivers s = [] \<longleftrightarrow> state (helper s) < StateShuttingDown"
    using d by (cases "(state (helper s), drivers s)" rule: drv_ok.cases) (auto simp: State_defs)
  have one: "StateShuttingDown \<le> state (helper s) \<longrightarrow> length (drivers s) = 1"
    using d by (cases "(state (helper s), drivers s)" rule: drv_ok.cases) (auto simp: State_defs)
  have hook: "drivers s = [DrvHook] \<longrightarrow>
            exec (EvDriverStep 0) s =
              (case (case shutdownHandler (helper s) of
                       None \<Rightarrow> HandleOnceShutdown (obj (helper s))
                     | Some f \<Rightarrow> Some f) of
                 None \<Rightarrow> Inl (GoPanic ''interface conversion: missing method HandleOnceShutdown'')
               | Some f \<Rightarrow> Inr (s\<lparr>drivers := [DrvLock1 (f (shutdownErr (helper s)))]\<rparr>))"
    by (auto split: option.splits)
  have lock1: "exec (EvDriverStep 0) s =
              Inr (s\<lparr>helper := (helper s)\<lparr>shutdownErr := e, state := StateLocalShutdown,
                                           localShutdownDoneChan := Closed\<rparr>,
                     drivers := [DrvWait]\<rparr>)" if "drivers s = [DrvLock1 e]" for e
  proof -
    from d that have "state (helper s) = 3" by (simp add: State_defs)
    with h have "localShutdownDoneChan (helper s) = Open"
      by (cases rule: hinv_cases) simp_all
    with that show ?thesis
      by (simp add: close_chan_def Let_def)
  qed
  have wait: "drivers s = [DrvWait] \<longrightarrow>
            exec (EvDriverStep 0) s =
              (if wg (helper s) = 0 then Inr (s\<lparr>drivers := [DrvLock2]\<rparr>) else Inl Blocked)"
    by auto
  have lock2: "exec (EvDriverStep 0) s =
              Inr (s\<lparr>helper := (helper s)\<lparr>state := StateShutDown, shutdownDoneChan := Closed\<rparr>,
                     drivers := [DrvDone]\<rparr>)" if "drivers s = [DrvLock2]"
  proof -
    from d that have "state (helper s) = 4" by (simp add: State_defs)
    with h have "shutdownDoneChan (helper s) = Open"
      by (cases rule: hinv_cases) simp_all
    with that show ?thesis
      by (simp add: close_chan_def Let_def)
  qed
  have fin: "drivers s = [DrvDone] \<longrightarrow> exec (EvDriverStep 0) s = Inl Blocked"
    by simp
  from d none one hook lock1 wait lock2 fin show ?thesis by blast
qed

lemma driver_steps_example:
  "exec (EvDriverStep 0) (ex_sys ex_shutting_down [DrvHook])
     = Inr (ex_sys ex_shutting_down [DrvLock1 (Some ''boom'')]) \<and>
   exec (EvDriverStep 0) (ex_sys ex_shutting_down [DrvLock1 (Some ''boom'')])
     = Inr (ex_sys ex_local_shutdown [DrvWait]) \<and>
   exec (EvDriverStep 0) (ex_sys ex_local_shutdown [DrvWait])
     = Inr (ex_sys ex_local_shutdown [DrvLock2]) \<and>
   exec (EvDriverStep 0) (ex_sys ex_local_shutdown [DrvLock2])
     = Inr (ex_sys ex_shut_down [DrvDone]) \<and>
   exec (EvDriverStep 0) (ex_sys ex_shut_down [DrvDone]) = Inl Blocked"
proof -
  have f: "shutdownHandler ex_shutting_down = None"
      "HandleOnceShutdown (obj ex_shutting_down) = Some (\<lambda>e. e)"
      "shutdownErr ex_shutting_down = Some ''boom''" "wg ex_local_shutdown = 0"
    by (simp_all add: ex_defs)
  from driver_steps[OF ex_new ex_run_hook] f
  have a: "exec (EvDriverStep 0) (ex_sys ex_shutting_down [DrvHook])
     = Inr (ex_sys ex_shutting_down [DrvLock1 (Some ''boom'')])"
    by (simp add: ex_sys_def del: exec.simps)
  from driver_steps[OF ex_new ex_run_lock1]
  have b: "exec (EvDriverStep 0) (ex_sys ex_shutting_down [DrvLock1 (Some ''boom'')])
     = Inr (ex_sys ex_local_shutdown [DrvWait])"
    by (simp add: ex_sys_def ex_local_shutdown_def ex_shutting_down_def del: exec.simps)
  from driver_steps[OF ex_new ex_run_wait] f
  have c: "exec (EvDriverStep 0) (ex_sys ex_local_shutdown [DrvWait])
     = Inr (ex_sys ex_local_shutdown [DrvLock2])"
    by (simp add: ex_sys_def del: exec.simps)
  from driver_steps[OF ex_new ex_run_lock2]
  have d: "exec (EvDriverStep 0) (ex_sys ex_local_shutdown [DrvLock2])
     = Inr (ex_sys ex_shut_down [DrvDone])"
    by (simp add: ex_sys_def ex_shut_down_def del: exec.simps)
  from driver_steps[OF ex_new ex_run_shut_down]
  have e: "exec (EvDriverStep 0) (ex_sys ex_shut_down [DrvDone]) = Inl Blocked"
    by (simp add: ex_sys_def del: exec.simps)
  from a b c d e show ?thesis by blast
qed

section \<open>The claims\<close>

subsection \<open>C1: DoOnceActivate after shutdown has started\<close>

text \<open>
  C1, as the specification states it, fails: a helper is shut down with the terminal error
  \<open>''boom''\<close>; a call \<^verbatim>\<open>DoOnceActivate(nil, true)\<close> then finds the object not activated
  and the state at least shutting-down, waits for shutdown-done, and returns \<open>''boom''\<close>,
  the terminal error, not the diagnostic.
\<close>

theorem DoOnceActivate_returns_terminal_error:
  "NewHelperWithShutdownHandler ex_obj None None = Inr ex_helper \<and>
   run [EvStartShutdown (Some ''boom''), EvDriverStep 0, EvDriverStep 0, EvDriverStep 0,
        EvDriverStep 0] (init_sys ex_helper)
     = Inr (ex_sys ex_shut_down [DrvDone]) \<and>
   \<not> isActivated ex_shut_down \<and> StateShuttingDown \<le> state ex_shut_down \<and>
   DoOnceActivate_step None True ActEntry ex_shut_down = Inr (ActWaitShutdownEarly, False, ex_shut_down) \<and>
   DoOnceActivate_step None True ActWaitShutdownEarly ex_shut_down
     = Inr (ActReturned (Some ''boom''), False, ex_shut_down) \<and>
   Some ''boom'' \<noteq> Some ''Shutdown of object already started; cannot SetIsActivated''"
  using ex_new ex_run_shut_down by (simp add: ex_defs eval_defs)

text \<open>
  C1, amended: when \<^verbatim>\<open>DoOnceActivate\<close> finds the object not activated and the state at
  least shutting-down (at entry, or after its wait on the activation-done channel), it
  leaves the helper unchanged; with \<^verbatim>\<open>waitOnFail\<close> false it returns the diagnostic
  "cannot activate" error at once; with \<^verbatim>\<open>waitOnFail\<close> true it blocks until shutdown-done
  is closed and then returns the terminal error if that is not nil, and the diagnostic
  only if the terminal error is nil.
\<close>

theorem DoOnceActivate_after_shutdown_started:
  assumes "\<not> isActivated h" and "StateShuttingDown \<le> state h"
  shows "DoOnceActivate_step cb False ActEntry h
           = Inr (ActReturned (Some ''Shutdown of object already started; cannot SetIsActivated''), False, h) \<and>
         DoOnceActivate_step cb True ActEntry h = Inr (ActWaitShutdownEarly, False, h) \<and>
         (activatingDoneChan h = Closed \<longrightarrow>
            DoOnceActivate_step cb w ActWaitActivatingDone h = DoOnceActivate_step cb w ActEntry h) \<and>
         DoOnceActivate_step cb True ActWaitShutdownEarly h
           = (case shutdownDoneChan h of
                Open \<Rightarrow> Inl Blocked
              | Closed \<Rightarrow> Inr (ActReturned (case shutdownErr h of
                                 None \<Rightarrow> Some ''Shutdown of object already started; cannot SetIsActivated''
                               | Some m \<Rightarrow> Some m), False, h))"
  using assms
  by (auto simp: DoOnceActivate_locked_def WaitShutdown_def State_defs split: chan.splits option.splits)

theorem DoOnceActivate_after_shutdown_started_witness:
  "\<not> isActivated ex_shut_down \<and> StateShuttingDown \<le> state ex_shut_down \<and>
   DoOnceActivate_step None False ActEntry ex_shut_down
     = Inr (ActReturned (Some ''Shutdown of object already started; cannot SetIsActivated''), False, ex_shut_down) \<and>
   DoOnceActivate_step None True ActEntry ex_shut_down = Inr (ActWaitShutdownEarly, False, ex_shut_down) \<and>
   DoOnceActivate_step None True ActWaitActivatingDone ex_shut_down
     = DoOnceActivate_step None True ActEntry ex_shut_down \<and>
   DoOnceActivate_step None True ActWaitShutdownEarly ex_shut_down
     = Inr (ActReturned (Some ''boom''), False, ex_shut_down)"
proof -
  have a: "\<not> isActivated ex_shut_down" and b: "StateShuttingDown \<le> state ex_shut_down"
    and c: "activatingDoneChan ex_shut_down = Closed" and d: "shutdownDoneChan ex_shut_down = Closed"
    and e: "shutdownErr ex_shut_down = Some ''boom''"
    by (simp_all add: ex_defs State_defs)
  from DoOnceActivate_after_shutdown_started[OF a b, of None True] a b c d e show ?thesis
    by (simp del: DoOnceActivate_step.simps)
qed

subsection \<open>C2: the transitions of the state\<close>

text \<open>
  C2, as the specification states it, fails: \<^verbatim>\<open>SetIsActivated\<close> on a new helper moves the
  state from unactivated to activated, and 0\<rightarrow>2 is not in the list.
\<close>

theorem SetIsActivated_skips_activating:
  "exec EvSetIsActivated (ex_sys ex_helper [])
     = Inr (ex_sys (ex_helper\<lparr>isActivated := True, state := StateActivated,
                              activatingDoneChan := Closed\<rparr>) []) \<and>
   state (helper (ex_sys ex_helper [])) = StateUnactivated \<and>
   state (helper (ex_sys (ex_helper\<lparr>isActivated := True, state := StateActivated,
                                    activatingDoneChan := Closed\<rparr>) []))
     = StateActivated \<and>
   StateUnactivated \<noteq> StateActivated \<and>
   (StateUnactivated, StateActivated) \<notin> spec_transitions"
  by (simp add: ex_defs eval_defs spec_transitions_def)

text \<open>
  C2, amended: every change of the state field performed by any operation, in any schedule
  from a new helper, is one of the transitions 0\<rightarrow>1, 0\<rightarrow>2, 0\<rightarrow>3, 1\<rightarrow>2, 1\<rightarrow>3, 2\<rightarrow>3, 3\<rightarrow>4,
  4\<rightarrow>5: the seven of the specification and unactivated\<rightarrow>activated, which a direct call of
  \<^verbatim>\<open>SetIsActivated\<close> makes.
\<close>

theorem state_transitions:
  assumes "NewHelperWithShutdownHandler ob logger sh = Inr h0"
    and "run evs (init_sys h0) = Inr s"
    and "exec ev s = Inr s'"
  shows "state (helper s') = state (helper s) \<or>
         (state (helper s), state (helper s')) \<in> insert (StateUnactivated, StateActivated) spec_transitions"
proof -
  from assms(1,2) have i: "sys_inv s"
    by (blast intro: run_sys_inv init_sys_inv)
  from exec_hinv[OF i assms(3)] i show ?thesis
    unfolding code_transitions_def[symmetric]
    by (intro event_ok_transition) (simp_all add: sys_inv_def)
qed

theorem state_transitions_witness:
  "state (helper (ex_sys ex_shutting_down [DrvHook])) = state (helper (ex_sys ex_helper [])) \<or>
   (state (helper (ex_sys ex_helper [])), state (helper (ex_sys ex_shutting_down [DrvHook])))
     \<in> insert (StateUnactivated, StateActivated) spec_transitions"
proof -
  have e: "exec (EvStartShutdown (Some ''boom'')) (ex_sys ex_helper [])
             = Inr (ex_sys ex_shutting_down [DrvHook])"
    by (simp add: ex_defs eval_defs)
  from state_transitions[OF ex_new ex_run_nothing e] show ?thesis .
qed

subsection \<open>C3: a missing activate capability\<close>

text \<open>
  C3, as the specification states it, fails: the example object has no
  \<^verbatim>\<open>HandleOnceActivate\<close>; both constructors accept it; the first call
  \<^verbatim>\<open>DoOnceActivate(nil, false)\<close> enters \<^verbatim>\<open>StateActivating\<close> and then panics on the type
  assertion, at the moment the hook is to be called.
\<close>

theorem missing_activator_accepted_at_construction:
  "HandleOnceActivate ex_obj = None \<and>
   NewHelperWithShutdownHandler ex_obj None None = Inr ex_helper \<and>
   NewHelper None ex_obj = Inr ex_helper \<and>
   run [EvDoOnceActivate None False, EvActivatorStep 0] (init_sys ex_helper)
     = Inr \<lparr>helper = ex_activating,
            activators = [\<lparr>onceActivateCallback = None, waitOnFail = False, pc = ActHook\<rparr>],
            drivers = []\<rparr> \<and>
   run [EvDoOnceActivate None False, EvActivatorStep 0, EvActivatorStep 0] (init_sys ex_helper)
     = Inl (GoPanic ''interface conversion: missing method HandleOnceActivate'')"
  by (simp add: ex_defs eval_defs NewHelper_def)

text \<open>
  C3, amended: construction looks only at the shutdown side: it is rejected (by a panic) if
  and only if the shutdown handler argument is nil and the managed object does not provide
  the shutdown capability. An object without the activate capability is accepted; the
  error is detected when a call of \<^verbatim>\<open>DoOnceActivate\<close> with a nil hook reaches the point
  where it invokes the hook, by a panic there.
\<close>

theorem missing_capabilities:
  assumes "HandleOnceActivate ob = None"
  shows "((\<exists>p. NewHelperWithShutdownHandler ob logger sh = Inl p)
            \<longleftrightarrow> sh = None \<and> HandleOnceShutdown ob = None) \<and>
         (\<forall>h0 evs s w. NewHelperWithShutdownHandler ob logger sh = Inr h0 \<longrightarrow>
            run evs (init_sys h0) = Inr s \<longrightarrow>
            DoOnceActivate_step None w ActHook (helper s)
              = Inl (GoPanic ''interface conversion: missing method HandleOnceActivate''))"
proof -
  have a: "(\<exists>p. NewHelperWithShutdownHandler ob logger sh = Inl p)
            \<longleftrightarrow> sh = None \<and> HandleOnceShutdown ob = None"
    by (simp add: NewHelperWithShutdownHandler_def)
  have b: "DoOnceActivate_step None w ActHook (helper s)
              = Inl (GoPanic ''interface conversion: missing method HandleOnceActivate'')"
    if n: "NewHelperWithShutdownHandler ob logger sh = Inr h0" and r: "run evs (init_sys h0) = Inr s"
    for h0 evs s w
  proof -
    from n have "obj h0 = ob"
      by (auto simp: NewHelperWithShutdownHandler_def split: if_splits)
    with run_frame[OF init_sys_inv[OF n] r] have "obj (helper s) = ob"
      by (simp add: init_sys_def)
    with assms show ?thesis by simp
  qed
  from a b show ?thesis by blast
qed

theorem missing_capabilities_witness:
  "HandleOnceActivate ex_obj = None \<and>
   \<not> (\<exists>p. NewHelperWithShutdownHandler ex_obj None None = Inl p) \<and>
   DoOnceActivate_step None False ActHook ex_activating
     = Inl (GoPanic ''interface conversion: missing method HandleOnceActivate'')"
proof -
  have a: "HandleOnceActivate ex_obj = None" by (simp add: ex_defs)
  have r: "run [EvDoOnceActivate None False, EvActivatorStep 0] (init_sys ex_helper)
     = Inr \<lparr>helper = ex_activating,
            activators = [\<lparr>onceActivateCallback = None, waitOnFail = False, pc = ActHook\<rparr>],
            drivers = []\<rparr>"
    by (simp add: ex_defs eval_defs)
  have s: "HandleOnceShutdown ex_obj \<noteq> None" by (simp add: ex_defs)
  note t = missing_capabilities[OF a, of None None]
  from t s have p1: "\<not> (\<exists>p. NewHelperWithShutdownHandler ex_obj None None = Inl p)"
    by simp
  from t[THEN conjunct2, rule_format, OF ex_new r, of False]
  have p2: "DoOnceActivate_step None False ActHook ex_activating
     = Inl (GoPanic ''interface conversion: missing method HandleOnceActivate'')"
    by (simp del: DoOnceActivate_step.simps)
  from a p1 p2 show ?thesis by blast
qed

subsection \<open>C4: how misuse is reported\<close>

text \<open>
  C4, as the specification states it, fails: \<^verbatim>\<open>ShutdownWGAdd(0)\<close> on a new helper returns
  an error value and the helper is as before; nothing is reported through the logger.
\<close>

theorem ShutdownWGAdd_nonpositive_returns_error:
  "ShutdownWGAdd 0 ex_helper = Inr (Some ''ShutdownWGAdd: delta must be > 0'', ex_helper)"
  by (simp add: ShutdownWGAdd_def)

text \<open>
  C4, amended: \<^verbatim>\<open>UndeferShutdown\<close> called when the deferral count is zero (below one)
  signals a fatal event on the attached logger; \<^verbatim>\<open>ShutdownWGAdd\<close> with a delta \<open>\<le> 0\<close>
  returns an error to the caller and changes nothing.
\<close>

theorem misuse_reporting:
  "(shutdownDeferCount h < 1 \<and> lg h = Some logger \<longrightarrow>
      UndeferShutdown h = Inl (LoggerPanic ''UndeferShutdown before DeferShutdown'')) \<and>
   (delta \<le> 0 \<longrightarrow>
      ShutdownWGAdd delta h = Inr (Some ''ShutdownWGAdd: delta must be > 0'', h))"
  by (simp add: UndeferShutdown_def ShutdownWGAdd_def lg_Panic_def)

theorem misuse_reporting_witness:
  "shutdownDeferCount ex_helper < 1 \<and> lg ex_helper = Some NilLogger \<and>
   UndeferShutdown ex_helper = Inl (LoggerPanic ''UndeferShutdown before DeferShutdown'') \<and>
   (-1::int) \<le> 0 \<and>
   ShutdownWGAdd (-1) ex_helper = Inr (Some ''ShutdownWGAdd: delta must be > 0'', ex_helper)"
proof -
  have a: "shutdownDeferCount ex_helper < 1" "lg ex_helper = Some NilLogger"
    by (simp_all add: ex_defs)
  have b: "(-1::int) \<le> 0" by simp
  from misuse_reporting[of ex_helper NilLogger "-1"] a b show ?thesis by simp
qed

subsection \<open>C5: the shutdown driver\<close>

text \<open>
  C5 describes what the driver is meant to do, and the code does it whenever a shutdown
  hook can be resolved (lemma \<open>driver_steps\<close>). The code breaks it at this input: a
  helper is made by \<^verbatim>\<open>NewHelperWithShutdownHandler\<close> for an object without
  \<^verbatim>\<open>HandleOnceShutdown\<close> and with an explicit hook; \<^verbatim>\<open>SetOnceShutdownHandler(nil)\<close> is
  accepted (it returns nil and removes the hook) although the constructor's check of the
  object is not made again; \<^verbatim>\<open>StartShutdown\<close> enters shutting-down and starts the driver;
  the driver's first step panics on the type assertion. No hook is called, and the state
  stays shutting-down with local-shutdown-done and shutdown-done open.
\<close>

theorem shutdown_driver_without_hook:
  "NewHelperWithShutdownHandler ex_bare_obj None (Some ex_handler) = Inr ex_bare_helper \<and>
   SetOnceShutdownHandler None ex_bare_helper = (None, ex_bare_helper\<lparr>shutdownHandler := None\<rparr>) \<and>
   run [EvSetOnceShutdownHandler None, EvStartShutdown (Some ''boom'')] (init_sys ex_bare_helper)
     = Inr (ex_sys (ex_shutting_down\<lparr>obj := ex_bare_obj\<rparr>) [DrvHook]) \<and>
   state (ex_shutting_down\<lparr>obj := ex_bare_obj\<rparr>) = StateShuttingDown \<and>
   localShutdownDoneChan (ex_shutting_down\<lparr>obj := ex_bare_obj\<rparr>) = Open \<and>
   shutdownDoneChan (ex_shutting_down\<lparr>obj := ex_bare_obj\<rparr>) = Open \<and>
   exec (EvDriverStep 0) (ex_sys (ex_shutting_down\<lparr>obj := ex_bare_obj\<rparr>) [DrvHook])
     = Inl (GoPanic ''interface conversion: missing method HandleOnceShutdown'') \<and>
   run [EvSetOnceShutdownHandler None, EvStartShutdown (Some ''boom''), EvDriverStep 0]
     (init_sys ex_bare_helper)
     = Inl (GoPanic ''interface conversion: missing method HandleOnceShutdown'')"
  by (simp add: ex_defs eval_defs)

subsection \<open>C6: the first StartShutdown and the later ones\<close>

text \<open>
  C6: in every schedule from a new helper, the first call \<^verbatim>\<open>StartShutdown(e1)\<close> (the
  scheduled flag is not yet set) returns true, sets the scheduled flag, stores \<open>e1\<close> as the
  terminal error, leaves the deferral count, and enters shutting-down exactly when the
  deferral count is zero (otherwise the state stays). After it, however the schedule
  continues, every call \<^verbatim>\<open>StartShutdown(e2)\<close> returns false and changes nothing, in the
  helper or in the goroutines, and the terminal error is still \<open>e1\<close> unless the state has
  reached local-shutdown, where the shutdown hook's result has replaced it.
\<close>

theorem StartShutdown_first_and_repeated:
  assumes "NewHelperWithShutdownHandler ob logger sh = Inr h0"
    and "run evs (init_sys h0) = Inr s"
    and "\<not> isScheduledShutdown (helper s)"
  shows "(\<exists>h1. StartShutdown e1 (helper s) = Inr ((True, shutdownDeferCount (helper s) = 0), h1) \<and>
               isScheduledShutdown h1 \<and> shutdownErr h1 = e1 \<and>
               shutdownDeferCount h1 = shutdownDeferCount (helper s) \<and>
               state h1 = (if shutdownDeferCount (helper s) = 0 then StateShuttingDown
                           else state (helper s))) \<and>
         state (helper s) < StateShuttingDown \<and>
         (\<forall>s1 evs' s2 e2.
            exec (EvStartShutdown e1) s = Inr s1 \<longrightarrow> run evs' s1 = Inr s2 \<longrightarrow>
              StartShutdown e2 (helper s2) = Inr ((False, False), helper s2) \<and>
              exec (EvStartShutdown e2) s2 = Inr s2 \<and>
              (shutdownErr (helper s2) = e1 \<or> StateLocalShutdown \<le> state (helper s2)))"
proof -
  from assms(1,2) have i: "sys_inv s"
    by (blast intro: run_sys_inv init_sys_inv)
  then have h: "hinv (helper s)" by (simp add: sys_inv_def)
  from h assms(3) have first: "\<exists>h1. StartShutdown e1 (helper s) = Inr ((True, shutdownDeferCount (helper s) = 0), h1) \<and>
               isScheduledShutdown h1 \<and> shutdownErr h1 = e1 \<and>
               shutdownDeferCount h1 = shutdownDeferCount (helper s) \<and>
               state h1 = (if shutdownDeferCount (helper s) = 0 then StateShuttingDown
                           else state (helper s))"
    by (cases rule: hinv_cases)
       (simp_all add: StartShutdown_def lockedEnterShuttingDownState_def close_chan_def
                      State_defs Let_def)
  from h assms(3) have below: "state (helper s) < StateShuttingDown"
    by (cases rule: hinv_cases) (simp_all add: State_defs)
  have later: "StartShutdown e2 (helper s2) = Inr ((False, False), helper s2) \<and>
              exec (EvStartShutdown e2) s2 = Inr s2 \<and>
              (shutdownErr (helper s2) = e1 \<or> StateLocalShutdown \<le> state (helper s2))"
    if e: "exec (EvStartShutdown e1) s = Inr s1" and r: "run evs' s1 = Inr s2" for s1 evs' s2 e2
  proof -
    from first e have s1: "isScheduledShutdown (helper s1)" "shutdownErr (helper s1) = e1"
      by (auto simp: spawn_driver_def)
    from exec_sys_inv[OF i e] have i1: "sys_inv s1" .
    from run_frame[OF i1 r] s1 have s2: "isScheduledShutdown (helper s2)"
        "shutdownErr (helper s2) = e1 \<or> StateLocalShutdown \<le> state (helper s2)"
      by auto
    from s2(1) have "StartShutdown e2 (helper s2) = Inr ((False, False), helper s2)"
      by (simp add: StartShutdown_def)
    with s2(2) show ?thesis
      by (simp add: spawn_driver_def)
  qed
  from first below later show ?thesis by blast
qed

theorem StartShutdown_first_and_repeated_witness:
  "\<not> isScheduledShutdown ex_helper \<and>
   StartShutdown (Some ''boom'') ex_helper = Inr ((True, True), ex_shutting_down) \<and>
   StartShutdown (Some ''again'') ex_shut_down = Inr ((False, False), ex_shut_down) \<and>
   exec (EvStartShutdown (Some ''again'')) (ex_sys ex_shut_down [DrvDone])
     = Inr (ex_sys ex_shut_down [DrvDone]) \<and>
   (shutdownErr ex_shut_down = Some ''boom'' \<or> StateLocalShutdown \<le> state ex_shut_down)"
proof -
  have n: "\<not> isScheduledShutdown (helper (ex_sys ex_helper []))" by (simp add: ex_defs)
  have e: "exec (EvStartShutdown (Some ''boom'')) (ex_sys ex_helper [])
             = Inr (ex_sys ex_shutting_down [DrvHook])"
    by (simp add: ex_defs eval_defs)
  have f: "StartShutdown (Some ''boom'') ex_helper = Inr ((True, True), ex_shutting_down)"
    by (simp add: ex_defs eval_defs)
  note t = StartShutdown_first_and_repeated[OF ex_new ex_run_nothing n, of "Some ''boom''"]
  from t[THEN conjunct2, THEN conjunct2, rule_format, OF e ex_run_from_shutting_down,
         of "Some ''again''"]
  have p: "StartShutdown (Some ''again'') ex_shut_down = Inr ((False, False), ex_shut_down) \<and>
      exec (EvStartShutdown (Some ''again'')) (ex_sys ex_shut_down [DrvDone])
        = Inr (ex_sys ex_shut_down [DrvDone]) \<and>
      (shutdownErr ex_shut_down = Some ''boom'' \<or> StateLocalShutdown \<le> state ex_shut_down)"
    by (simp add: ex_sys_def del: exec.simps)
  from n f p show ?thesis by (simp add: ex_sys_def del: exec.simps)
qed

subsection \<open>C7: until when the shutdown hook can be set\<close>

text \<open>
  C7, as the specification states it, fails: a call of \<^verbatim>\<open>DoOnceActivate\<close> has put a new
  helper into \<^verbatim>\<open>StateActivating\<close>; \<^verbatim>\<open>SetOnceShutdownHandler\<close> called then returns nil
  and installs the new hook.
\<close>

theorem SetOnceShutdownHandler_while_activating:
  "run [EvDoOnceActivate (Some ex_callback) False, EvActivatorStep 0] (init_sys ex_helper)
     = Inr \<lparr>helper = ex_activating,
            activators = [\<lparr>onceActivateCallback = Some ex_callback, waitOnFail = False, pc = ActHook\<rparr>],
            drivers = []\<rparr> \<and>
   state ex_activating = StateActivating \<and>
   shutdownHandler ex_activating = None \<and>
   SetOnceShutdownHandler (Some ex_handler) ex_activating
     = (None, ex_activating\<lparr>shutdownHandler := Some ex_handler\<rparr>) \<and>
   shutdownHandler (ex_activating\<lparr>shutdownHandler := Some ex_handler\<rparr>) = Some ex_handler"
  by (simp add: ex_defs eval_defs)

text \<open>
  C7, amended: the shutdown hook is settable until activation has succeeded: a call of
  \<^verbatim>\<open>SetOnceShutdownHandler\<close> made when the state is activated or higher returns an error
  and leaves the helper, and so the installed hook, unchanged; a call made in a lower state
  (unactivated or activating) returns nil and installs the hook. In every schedule from a
  new helper, once the state is activated or higher no event changes the installed hook.
\<close>

theorem SetOnceShutdownHandler_until_activated:
  "(StateActivated \<le> state h \<longrightarrow>
      SetOnceShutdownHandler callback h = (Some ''Cannot SetOnceShutdownHandler after activation'', h)) \<and>
   (state h < StateActivated \<longrightarrow>
      SetOnceShutdownHandler callback h = (None, h\<lparr>shutdownHandler := callback\<rparr>)) \<and>
   (\<forall>ob logger sh h0 evs s ev s'.
      NewHelperWithShutdownHandler ob logger sh = Inr h0 \<longrightarrow> run evs (init_sys h0) = Inr s \<longrightarrow>
      StateActivated \<le> state (helper s) \<longrightarrow> exec ev s = Inr s' \<longrightarrow>
      shutdownHandler (helper s') = shutdownHandler (helper s))"
proof -
  have kept: "shutdownHandler (helper s') = shutdownHandler (helper s)"
    if n: "NewHelperWithShutdownHandler ob logger sh = Inr h0" and r: "run evs (init_sys h0) = Inr s"
      and a: "StateActivated \<le> state (helper s)" and e: "exec ev s = Inr s'"
    for ob logger sh h0 evs s ev s'
  proof -
    from n r have "sys_inv s"
      by (blast intro: run_sys_inv init_sys_inv)
    from exec_frame[OF this e] a show ?thesis
      by (simp add: frame_def)
  qed
  have call: "(StateActivated \<le> state h \<longrightarrow>
      SetOnceShutdownHandler callback h = (Some ''Cannot SetOnceShutdownHandler after activation'', h)) \<and>
   (state h < StateActivated \<longrightarrow>
      SetOnceShutdownHandler callback h = (None, h\<lparr>shutdownHandler := callback\<rparr>))"
    by (simp add: SetOnceShutdownHandler_def)
  from call kept show ?thesis by blast
qed

theorem SetOnceShutdownHandler_until_activated_witness:
  "StateActivated \<le> state ex_shut_down \<and>
   SetOnceShutdownHandler None ex_shut_down = (Some ''Cannot SetOnceShutdownHandler after activation'', ex_shut_down) \<and>
   state ex_activating < StateActivated \<and>
   SetOnceShutdownHandler (Some ex_handler) ex_activating
     = (None, ex_activating\<lparr>shutdownHandler := Some ex_handler\<rparr>) \<and>
   StateActivated \<le> state (helper (ex_sys ex_shutting_down [DrvHook])) \<and>
   exec (EvSetOnceShutdownHandler (Some ex_handler)) (ex_sys ex_shutting_down [DrvHook])
     = Inr (ex_sys ex_shutting_down [DrvHook]) \<and>
   shutdownHandler (helper (ex_sys ex_shutting_down [DrvHook]))
     = shutdownHandler (helper (ex_sys ex_shutting_down [DrvHook]))"
proof -
  have a: "StateActivated \<le> state ex_shut_down"
    by (simp add: ex_defs State_defs)
  have b: "state ex_activating < StateActivated"
    by (simp add: ex_defs State_defs)
  have c: "StateActivated \<le> state (helper (ex_sys ex_shutting_down [DrvHook]))"
    by (simp add: ex_defs State_defs)
  have e: "exec (EvSetOnceShutdownHandler (Some ex_handler)) (ex_sys ex_shutting_down [DrvHook])
     = Inr (ex_sys ex_shutting_down [DrvHook])"
    by (simp add: ex_defs eval_defs)
  note t = SetOnceShutdownHandler_until_activated[of ex_shut_down None]
  note u = SetOnceShutdownHandler_until_activated[of ex_activating "Some ex_handler"]
  from t a have p: "SetOnceShutdownHandler None ex_shut_down
      = (Some ''Cannot SetOnceShutdownHandler after activation'', ex_shut_down)"
    by simp
  from u b have q: "SetOnceShutdownHandler (Some ex_handler) ex_activating
     = (None, ex_activating\<lparr>shutdownHandler := Some ex_handler\<rparr>)"
    by simp
  from t[THEN conjunct2, THEN conjunct2, rule_format, OF ex_new ex_run_hook c e]
  have k: "shutdownHandler (helper (ex_sys ex_shutting_down [DrvHook]))
     = shutdownHandler (helper (ex_sys ex_shutting_down [DrvHook]))" .
  from a b c e p q k show ?thesis by blast
qed

subsection \<open>C8: the state never decreases\<close>

text \<open>
  C8: in every schedule from a new helper, of two observations of the state the later one
  is never lower than the earlier one.
\<close>

theorem state_non_decreasing:
  assumes "NewHelperWithShutdownHandler ob logger sh = Inr h0"
    and "run evs (init_sys h0) = Inr s"
    and "run evs' s = Inr s'"
  shows "GetAsyncObjState (helper s) \<le> GetAsyncObjState (helper s')"
proof -
  from assms(1,2) have "sys_inv s"
    by (blast intro: run_sys_inv init_sys_inv)
  from run_state_mono[OF this assms(3)] show ?thesis
    by (simp add: GetAsyncObjState_def)
qed

theorem state_non_decreasing_witness:
  "GetAsyncObjState (helper (ex_sys ex_shutting_down [DrvHook]))
     \<le> GetAsyncObjState (helper (ex_sys ex_shut_down [DrvDone]))"
  using state_non_decreasing[OF ex_new ex_run_hook ex_run_from_shutting_down] .

subsection \<open>C9: the deferral count\<close>

text \<open>
  C9: in every schedule from a new helper the deferral count is non-negative, and when it
  is greater than zero the state is below shutting-down; once the state is at least
  shutting-down no event increments the count, and \<^verbatim>\<open>DeferShutdown\<close> returns an error
  and changes nothing.
\<close>

theorem deferral_count:
  assumes "NewHelperWithShutdownHandler ob logger sh = Inr h0"
    and "run evs (init_sys h0) = Inr s"
  shows "0 \<le> shutdownDeferCount (helper s) \<and>
         (0 < shutdownDeferCount (helper s) \<longrightarrow> state (helper s) < StateShuttingDown) \<and>
         (StateShuttingDown \<le> state (helper s) \<longrightarrow>
            (\<forall>ev s'. exec ev s = Inr s' \<longrightarrow>
                      shutdownDeferCount (helper s') \<le> shutdownDeferCount (helper s)) \<and>
            fst (DeferShutdown (helper s)) \<noteq> None \<and>
            snd (DeferShutdown (helper s)) = helper s)"
proof -
  from assms have i: "sys_inv s"
    by (blast intro: run_sys_inv init_sys_inv)
  then have h: "hinv (helper s)" by (simp add: sys_inv_def)
  have a: "0 \<le> shutdownDeferCount (helper s)"
    using h by (simp add: hinv_def)
  have b: "0 < shutdownDeferCount (helper s) \<longrightarrow> state (helper s) < StateShuttingDown"
    using h by (auto simp: hinv_def)
  have c: "shutdownDeferCount (helper s') \<le> shutdownDeferCount (helper s)"
    if sd: "StateShuttingDown \<le> state (helper s)" and e: "exec ev s = Inr s'" for ev s'
  proof -
    from exec_hinv[OF i e] have h': "hinv (helper s')" and m: "state (helper s) \<le> state (helper s')"
      by (simp_all add: event_ok_mono)
    from sd m have "StateShuttingDown \<le> state (helper s')" by simp
    with h' have "shutdownDeferCount (helper s') = 0" by (simp add: hinv_def)
    with a show ?thesis by simp
  qed
  have d: "StateShuttingDown \<le> state (helper s) \<longrightarrow>
           fst (DeferShutdown (helper s)) \<noteq> None \<and> snd (DeferShutdown (helper s)) = helper s"
    by (simp add: DeferShutdown_def)
  from a b c d show ?thesis by blast
qed

theorem deferral_count_witness:
  "0 \<le> shutdownDeferCount ex_shutting_down \<and>
   StateShuttingDown \<le> state ex_shutting_down \<and>
   shutdownDeferCount (helper (ex_sys ex_shutting_down [DrvHook]))
     \<le> shutdownDeferCount ex_shutting_down \<and>
   fst (DeferShutdown ex_shutting_down) \<noteq> None \<and>
   snd (DeferShutdown ex_shutting_down) = ex_shutting_down"
proof -
  have sd: "StateShuttingDown \<le> state ex_shutting_down"
    by (simp add: ex_defs State_defs)
  have e: "exec EvDeferShutdown (ex_sys ex_shutting_down [DrvHook])
             = Inr (ex_sys ex_shutting_down [DrvHook])"
    by (simp add: ex_defs eval_defs)
  from deferral_count[OF ex_new ex_run_hook] sd e show ?thesis
    by (simp add: ex_sys_def del: exec.simps)
qed

subsection \<open>C10: SetIsActivated\<close>

text \<open>
  C10: in every schedule from a new helper, \<^verbatim>\<open>SetIsActivated\<close> returns (it does not
  panic), and it returns an error if and only if the object is not yet activated and the
  state is at least shutting-down, leaving the helper unchanged then; when the object is
  already activated it returns nil and changes nothing, whatever the state; from a
  not-activated state below shutting-down it returns nil, sets the activated flag, sets the
  state to activated and closes the activation-done channel.
\<close>

theorem SetIsActivated_result:
  assumes "NewHelperWithShutdownHandler ob logger sh = Inr h0"
    and "run evs (init_sys h0) = Inr s"
  shows "(\<exists>e h'. SetIsActivated (helper s) = Inr (e, h') \<and>
                 (e \<noteq> None \<longleftrightarrow> \<not> isActivated (helper s) \<and> StateShuttingDown \<le> state (helper s))) \<and>
         (isActivated (helper s) \<longrightarrow> SetIsActivated (helper s) = Inr (None, helper s)) \<and>
         (\<not> isActivated (helper s) \<and> StateShuttingDown \<le> state (helper s) \<longrightarrow>
            SetIsActivated (helper s)
              = Inr (Some ''Cannot activate; shutdown already initiated'', helper s)) \<and>
         (\<not> isActivated (helper s) \<and> state (helper s) < StateShuttingDown \<longrightarrow>
            SetIsActivated (helper s)
              = Inr (None, (helper s)\<lparr>isActivated := True, state := StateActivated,
                                      activatingDoneChan := Closed\<rparr>))"
proof -
  from assms have "sys_inv s"
    by (blast intro: run_sys_inv init_sys_inv)
  then have h: "hinv (helper s)" by (simp add: sys_inv_def)
  then show ?thesis
    by (cases rule: hinv_cases) (simp_all add: SetIsActivated_def close_chan_def State_defs)
qed

theorem SetIsActivated_result_witness:
  "\<not> isActivated ex_helper \<and> state ex_helper < StateShuttingDown \<and>
   SetIsActivated ex_helper
     = Inr (None, ex_helper\<lparr>isActivated := True, state := StateActivated,
                             activatingDoneChan := Closed\<rparr>) \<and>
   \<not> isActivated ex_shut_down \<and> StateShuttingDown \<le> state ex_shut_down \<and>
   SetIsActivated ex_shut_down
     = Inr (Some ''Cannot activate; shutdown already initiated'', ex_shut_down) \<and>
   isActivated (ex_shutting_down\<lparr>isActivated := True, shutdownErr := None\<rparr>) \<and>
   SetIsActivated (ex_shutting_down\<lparr>isActivated := True, shutdownErr := None\<rparr>)
     = Inr (None, ex_shutting_down\<lparr>isActivated := True, shutdownErr := None\<rparr>)"
proof -
  have a: "\<not> isActivated ex_helper \<and> state ex_helper < StateShuttingDown"
    and b: "\<not> isActivated ex_shut_down \<and> StateShuttingDown \<le> state ex_shut_down"
    and c: "isActivated (ex_shutting_down\<lparr>isActivated := True, shutdownErr := None\<rparr>)"
    by (simp_all add: ex_defs State_defs)
  have r: "run [EvSetIsActivated, EvStartShutdown None] (init_sys ex_helper)
             = Inr (ex_sys (ex_shutting_down\<lparr>isActivated := True, shutdownErr := None\<rparr>) [DrvHook])"
    by (simp add: ex_defs eval_defs)
  from SetIsActivated_result[OF ex_new ex_run_nothing] a
  have p: "SetIsActivated ex_helper
     = Inr (None, ex_helper\<lparr>isActivated := True, state := StateActivated,
                             activatingDoneChan := Closed\<rparr>)"
    by (simp add: ex_sys_def)
  from SetIsActivated_result[OF ex_new ex_run_shut_down] b
  have q: "SetIsActivated ex_shut_down
     = Inr (Some ''Cannot activate; shutdown already initiated'', ex_shut_down)"
    by (simp add: ex_sys_def)
  from SetIsActivated_result[OF ex_new r] c
  have t: "SetIsActivated (ex_shutting_down\<lparr>isActivated := True, shutdownErr := None\<rparr>)
     = Inr (None, ex_shutting_down\<lparr>isActivated := True, shutdownErr := None\<rparr>)"
    by (simp add: ex_sys_def)
  from a b c p q t show ?thesis by blast
qed

end
